theory Spec2Isabelle
  imports Complex_Main "HOL-Library.Sublist" "HOL-Library.Multiset" "HOL-Library.Option_ord"
begin

section \<open>Characters and strings\<close>

text \<open>
  Python strings are modelled as \<open>string\<close>; a \<open>char\<close> stands for the Unicode code
  point of the same number, so the model covers the texts whose code points are below 256.
  \<open>isspace\<close> is \<open>str.isspace\<close> (the characters removed by \<open>str.strip()\<close> and matched by
  \<open>\s\<close> in a regular expression on \<open>str\<close>), \<open>isprintable\<close> is \<open>str.isprintable\<close>, both
  restricted to that range.
\<close>

definition isspace :: "char \<Rightarrow> bool" where
  "isspace c = (let n = (of_char c :: nat)
                in (9 \<le> n \<and> n \<le> 13) \<or> (28 \<le> n \<and> n \<le> 32) \<or> n = 133 \<or> n = 160)"

definition isprintable :: "char \<Rightarrow> bool" where
  "isprintable c = (let n = (of_char c :: nat)
                    in (32 \<le> n \<and> n \<le> 126) \<or> (161 \<le> n \<and> n \<le> 172) \<or> 174 \<le> n)"

abbreviation NL :: char where "NL \<equiv> CHR 0x0A"
abbreviation SP :: char where "SP \<equiv> CHR 0x20"
abbreviation TAB :: char where "TAB \<equiv> CHR 0x09"

text \<open>\<open>s.strip()\<close>: leading and trailing whitespace removed.\<close>

definition strip :: "string \<Rightarrow> string" where
  "strip s = rev (dropWhile isspace (rev (dropWhile isspace s)))"

text \<open>
  \<open>re.sub(c{2,}, c, text)\<close> for a single character \<open>c\<close>: every maximal run of two or
  more \<open>c\<close> is replaced by one \<open>c\<close>.
\<close>

fun collapse_runs :: "char \<Rightarrow> string \<Rightarrow> string" where
  "collapse_runs c [] = []"
| "collapse_runs c [x] = [x]"
| "collapse_runs c (x # y # ys) =
     (if x = c \<and> y = c then collapse_runs c (y # ys) else x # collapse_runs c (y # ys))"

text \<open>\<open>sep.join(xs)\<close>.\<close>

fun py_join :: "string \<Rightarrow> string list \<Rightarrow> string" where
  "py_join sep [] = []"
| "py_join sep [x] = x"
| "py_join sep (x # y # ys) = x @ sep @ py_join sep (y # ys)"

section \<open>pdf\_service: the text normalizer\<close>

definition clean_text :: "string \<Rightarrow> string" where
  "clean_text text =
     (let text1 = collapse_runs NL text;
          text2 = collapse_runs SP text1;
          text3 = filter (\<lambda>c. isprintable c \<or> c = NL) text2
      in strip text3)"

section \<open>pdf\_service: the chunker\<close>

definition MAX_CHUNK_SIZE :: nat where "MAX_CHUNK_SIZE = 3000"
definition MIN_CHUNK_SIZE :: nat where "MIN_CHUNK_SIZE = 300"
definition CHUNK_OVERLAP :: nat where "CHUNK_OVERLAP = 300"

text \<open>\<open>needle in hay\<close> on strings: \<open>needle\<close> occurs as a contiguous substring.\<close>

fun py_in :: "string \<Rightarrow> string \<Rightarrow> bool" where
  "py_in needle [] = (needle = [])"
| "py_in needle (c # cs) = (prefix needle (c # cs) \<or> py_in needle cs)"

definition code_block_marker :: string where
  "code_block_marker = [CHR 0x60, CHR 0x60, CHR 0x60]"

text \<open>\<open>paragraph.count(code_block_marker)\<close>: occurrences counted from the left without overlap.\<close>

fun count_markers :: "string \<Rightarrow> nat" where
  "count_markers [] = 0"
| "count_markers (c # cs) =
     (if prefix code_block_marker (c # cs) then Suc (count_markers (drop 2 cs))
      else count_markers cs)"

text \<open>
  The regular expression \<open>\n\s*\n\<close> of \<open>re.split\<close>. \<open>sep_rest cs\<close> is asked right after a
  newline: \<open>\s*\<close> is greedy and takes the whole whitespace run, then gives characters back
  until a newline follows, so the match ends at the last newline of the run. The result is
  the text after the match, or \<open>None\<close> when the run holds no newline.
\<close>

definition sep_rest :: "string \<Rightarrow> string option" where
  "sep_rest cs =
     (let w = takeWhile isspace cs; r = dropWhile isspace cs
      in if NL \<in> set w then Some (rev (takeWhile (\<lambda>c. c \<noteq> NL) (rev w)) @ r) else None)"

text \<open>
  \<open>re.split(r'\n\s*\n', text)\<close>: the pieces between the matches, scanned from the left;
  \<open>acc\<close> is the piece being read.
\<close>

function re_split :: "string \<Rightarrow> string \<Rightarrow> string list" where
  "re_split acc [] = [acc]"
| "re_split acc (c # cs) =
     (if c = NL then
        (case sep_rest cs of
           Some rest \<Rightarrow> acc # re_split [] rest
         | None \<Rightarrow> re_split (acc @ [c]) cs)
      else re_split (acc @ [c]) cs)"
  by pat_completeness auto
termination
proof -
  have len: "length r \<le> length cs" if a: "sep_rest cs = Some r" for cs r
  proof -
    have "length (takeWhile (\<lambda>c. c \<noteq> NL) (rev (takeWhile isspace cs)))
            \<le> length (takeWhile isspace cs)"
      using length_takeWhile_le [of "\<lambda>c. c \<noteq> NL" "rev (takeWhile isspace cs)"] by simp
    moreover have "length (takeWhile isspace cs) + length (dropWhile isspace cs) = length cs"
      using takeWhile_dropWhile_id [of isspace cs]
        length_append [of "takeWhile isspace cs" "dropWhile isspace cs"]
      by simp
    ultimately show ?thesis
      using a by (auto simp: sep_rest_def Let_def split: if_splits)
  qed
  show ?thesis
    by (relation "measure (\<lambda>(acc, cs). length cs)") (auto dest: len)
qed

text \<open>The state of the paragraph loop: \<open>chunks\<close>, \<open>current_chunk\<close>, \<open>in_code_block\<close>.\<close>

type_synonym chunker_state = "string list \<times> string \<times> bool"

definition toggle_code_block :: "bool \<Rightarrow> string \<Rightarrow> bool" where
  "toggle_code_block in_code_block paragraph =
     (if py_in code_block_marker paragraph then
        (let markers = count_markers paragraph
         in if \<not> in_code_block \<and> markers mod 2 = 1 then True
            else if in_code_block \<and> markers mod 2 = 1 then False
            else in_code_block)
      else in_code_block)"

fun paragraph_loop :: "string list \<Rightarrow> chunker_state \<Rightarrow> chunker_state" where
  "paragraph_loop [] st = st"
| "paragraph_loop (paragraph # ps) (chunks, current_chunk, in_code_block) =
     (let in_code_block' = toggle_code_block in_code_block paragraph
      in if in_code_block' \<or> py_in code_block_marker paragraph then
           (if length current_chunk + length paragraph > MAX_CHUNK_SIZE
                 \<and> length current_chunk \<ge> MIN_CHUNK_SIZE
            then paragraph_loop ps (chunks @ [strip current_chunk], paragraph, in_code_block')
            else paragraph_loop ps
                   (chunks,
                    (if current_chunk \<noteq> [] then current_chunk @ [NL, NL] @ paragraph else paragraph),
                    in_code_block'))
         else
           (if length current_chunk + length paragraph > MAX_CHUNK_SIZE
                 \<and> length current_chunk \<ge> MIN_CHUNK_SIZE
            then paragraph_loop ps (chunks @ [strip current_chunk], paragraph, in_code_block')
            else paragraph_loop ps
                   (chunks,
                    (if current_chunk \<noteq> [] then current_chunk @ [NL, NL] @ paragraph else paragraph),
                    in_code_block')))"

text \<open>\<open>paragraphs = [p.strip() for p in re.split(...) if p.strip()]\<close>.\<close>

definition paragraphs_of :: "string \<Rightarrow> string list" where
  "paragraphs_of text = map strip (filter (\<lambda>p. strip p \<noteq> []) (re_split [] text))"

text \<open>The paragraph loop followed by the append of the last non-empty \<open>current_chunk\<close>.\<close>

definition paragraph_chunks :: "string \<Rightarrow> string list" where
  "paragraph_chunks text =
     (case paragraph_loop (paragraphs_of text) ([], [], False) of
        (chunks, current_chunk, in_code_block) \<Rightarrow>
          if current_chunk \<noteq> [] then chunks @ [strip current_chunk] else chunks)"

text \<open>
  The character-based fallback: \<open>for i in range(0, len(text), MAX_CHUNK_SIZE - CHUNK_OVERLAP)\<close>,
  with \<open>i\<close> moved back by \<open>CHUNK_OVERLAP\<close> when positive, appending
  \<open>text[i:min(i + MAX_CHUNK_SIZE, len(text))]\<close>.
\<close>

definition fallback_starts :: "nat \<Rightarrow> nat list" where
  "fallback_starts n =
     map (\<lambda>k. k * (MAX_CHUNK_SIZE - CHUNK_OVERLAP))
         [0 ..< (n + (MAX_CHUNK_SIZE - CHUNK_OVERLAP) - 1) div (MAX_CHUNK_SIZE - CHUNK_OVERLAP)]"

definition fallback_window :: "string \<Rightarrow> nat \<Rightarrow> string" where
  "fallback_window text i0 =
     (let i = (if i0 > 0 then i0 - CHUNK_OVERLAP else i0)
      in drop i (take (min (i + MAX_CHUNK_SIZE) (length text)) text))"

definition fallback_chunks :: "string \<Rightarrow> string list" where
  "fallback_chunks text = map (fallback_window text) (fallback_starts (length text))"

definition split_text_into_chunks :: "string \<Rightarrow> string list" where
  "split_text_into_chunks text0 =
     (let text = clean_text text0
      in if length text \<le> MAX_CHUNK_SIZE then [text]
         else (let chunks = paragraph_chunks text
               in if chunks = [] then fallback_chunks text else chunks))"

text \<open>Notation used in the statements below.\<close>

abbreviation nsp :: "string \<Rightarrow> string" where "nsp \<equiv> filter (\<lambda>c. \<not> isspace c)"

abbreviation neat :: "string \<Rightarrow> bool" where
  "neat p \<equiv> p \<noteq> [] \<and> \<not> isspace (hd p) \<and> \<not> isspace (last p)"

abbreviation A2000 :: string where "A2000 \<equiv> replicate 2000 (CHR ''A'')"
abbreviation B2000 :: string where "B2000 \<equiv> replicate 2000 (CHR ''B'')"
abbreviation A4000 :: string where "A4000 \<equiv> replicate 4000 (CHR ''A'')"


text \<open>\<open>norun c xs\<close>: no two adjacent elements of \<open>xs\<close> are both \<open>c\<close>.\<close>

fun norun :: "char \<Rightarrow> string \<Rightarrow> bool" where
  "norun c [] = True"
| "norun c [x] = True"
| "norun c (x # y # ys) = ((x \<noteq> c \<or> y \<noteq> c) \<and> norun c (y # ys))"

section \<open>embedding\_service\<close>

text \<open>Exceptions of the Python code that the model keeps as values.\<close>

datatype error =
    ValueError
  | ZeroDivisionError
  | IndexError
  | TypeError
  | OverflowError
  | JSONDecodeError
  | IntegrityError
  | AzureOpenAIConfigError
  | RuntimeError
  | MemoryError

text \<open>
  The vectors that the embedder builds are lists of reals: in \<open>get_simple_embeddings\<close> the
  float32 additions and the division by the norm are read as exact.
\<close>

type_synonym vec = "real list"

text \<open>The module constants read from the environment at import time.\<close>

record embedding_config =
  EMBEDDING_DIM :: int
  USE_EXTERNAL_EMBEDDINGS :: bool

definition DEFAULT_EMBEDDING_DIM :: int where "DEFAULT_EMBEDDING_DIM = 128"

text \<open>
  Whether memory can be had depends on the machine: \<open>alloc kind n\<close> is the exception that a
  request for \<open>n\<close> entries raises, if it raises one, for a NumPy array (\<open>MemoryError\<close>, or
  \<open>ValueError\<close> or \<open>OverflowError\<close> for a size beyond the index range) and for a Python list of
  floats, which takes more. The memory is taken to be the same throughout a call: what was
  allocated once can be allocated again.
\<close>

datatype storage = Array | PyList

type_synonym allocator = "storage \<Rightarrow> nat \<Rightarrow> error option"

text \<open>\<open>np.zeros(n)\<close> raises \<open>ValueError\<close> for a negative \<open>n\<close>.\<close>

definition np_zeros :: "allocator \<Rightarrow> int \<Rightarrow> error + vec" where
  "np_zeros alloc n =
     (if n < 0 then Inl ValueError
      else (case alloc Array (nat n) of
              Some e \<Rightarrow> Inl e
            | None \<Rightarrow> Inr (replicate (nat n) 0)))"

text \<open>\<open>np.linalg.norm\<close> on the array of the embedder.\<close>

definition l2_norm :: "vec \<Rightarrow> real" where
  "l2_norm v = sqrt (sum_list (map (\<lambda>x. x * x) v))"

text \<open>
  The inner loop of \<open>get_simple_embeddings\<close>:
  \<open>for i, char in enumerate(text): idx = i % embedding_dim; embedding[idx] += ord(char) / 1000.0\<close>.
  \<open>i % 0\<close> raises \<open>ZeroDivisionError\<close>.
\<close>

fun accumulate :: "int \<Rightarrow> (nat \<times> char) list \<Rightarrow> vec \<Rightarrow> error + vec" where
  "accumulate embedding_dim [] embedding = Inr embedding"
| "accumulate embedding_dim ((i, char) # rest) embedding =
     (if embedding_dim = 0 then Inl ZeroDivisionError
      else (let idx = nat (int i mod embedding_dim)
            in accumulate embedding_dim rest
                 (embedding[idx := embedding ! idx + real (of_char char) / 1000])))"

text \<open>
  The body of the outer loop: the embedding of one text. The division makes a second array
  of the size of the first.
\<close>

definition embed_text :: "allocator \<Rightarrow> int \<Rightarrow> string \<Rightarrow> error + vec" where
  "embed_text alloc embedding_dim text =
     (case np_zeros alloc embedding_dim of
        Inl e \<Rightarrow> Inl e
      | Inr zeros \<Rightarrow>
          (case accumulate embedding_dim (enumerate 0 text) zeros of
             Inl e \<Rightarrow> Inl e
           | Inr embedding \<Rightarrow>
               (let norm = l2_norm embedding
                in Inr (if norm > 0 then map (\<lambda>x. x / norm) embedding else embedding))))"

fun embeddings_loop :: "allocator \<Rightarrow> int \<Rightarrow> string list \<Rightarrow> vec list \<Rightarrow> error + vec list" where
  "embeddings_loop alloc embedding_dim [] embeddings = Inr embeddings"
| "embeddings_loop alloc embedding_dim (text # texts) embeddings =
     (case embed_text alloc embedding_dim text of
        Inl e \<Rightarrow> Inl e
      | Inr embedding \<Rightarrow> embeddings_loop alloc embedding_dim texts (embeddings @ [embedding]))"

definition get_simple_embeddings :: "allocator \<Rightarrow> string list \<Rightarrow> int \<Rightarrow> error + vec list" where
  "get_simple_embeddings alloc texts embedding_dim = embeddings_loop alloc embedding_dim texts []"

definition get_external_embeddings :: "allocator \<Rightarrow> string list \<Rightarrow> int \<Rightarrow> error + vec list" where
  "get_external_embeddings alloc texts embedding_dim =
     get_simple_embeddings alloc texts embedding_dim"

text \<open>
  \<open>get_embeddings(texts, embedding_dim=None)\<close>; \<open>dim = embedding_dim or EMBEDDING_DIM\<close> takes
  the module constant when the argument is \<open>None\<close> or \<open>0\<close>. An exception of the external
  backend is caught and the simple embeddings are computed instead.
\<close>

definition get_embeddings ::
  "allocator \<Rightarrow> embedding_config \<Rightarrow> string list \<Rightarrow> int option \<Rightarrow> error + vec list" where
  "get_embeddings alloc cfg texts embedding_dim =
     (let dim = (case embedding_dim of
                   None \<Rightarrow> EMBEDDING_DIM cfg
                 | Some d \<Rightarrow> if d = 0 then EMBEDDING_DIM cfg else d)
      in if USE_EXTERNAL_EMBEDDINGS cfg then
           (case get_external_embeddings alloc texts dim of
              Inr embeddings \<Rightarrow> Inr embeddings
            | Inl e \<Rightarrow> get_simple_embeddings alloc texts dim)
         else get_simple_embeddings alloc texts dim)"

text \<open>
  Python floats and NumPy scalars outside the embedder. \<open>'f\<close> is the type of the float
  values other than NaN, infinities included, in their order; \<open>-0.0\<close> and \<open>0.0\<close>, which
  compare equal, are one value. The comparisons are those of IEEE 754: with a NaN operand
  \<open><\<close>, \<open>>\<close> and \<open>==\<close> are false.
\<close>

datatype 'f pyfloat = Num 'f | NaN

fun py_lt :: "'f::linorder pyfloat \<Rightarrow> 'f pyfloat \<Rightarrow> bool" where
  "py_lt (Num x) (Num y) = (x < y)"
| "py_lt a b = False"

fun py_eq :: "'f pyfloat \<Rightarrow> 'f pyfloat \<Rightarrow> bool" where
  "py_eq (Num x) (Num y) = (x = y)"
| "py_eq a b = False"

text \<open>
  A similarity score as the program holds it: a number, or an array of more than one
  element (what \<open>np.dot\<close> returns when the stored JSON is a list of lists). The truth value
  of a comparison with such an array is ambiguous (\<open>ValueError\<close>) and \<open>int\<close> refuses it
  (\<open>TypeError\<close>); an array of one element behaves as that element.
\<close>

datatype 'f score = Scalar "'f pyfloat" | ArrayScore

text \<open>
  The arithmetic of NumPy and of Python floats is an argument of the model, so that nothing
  is assumed about rounding, overflow or the order of summation, and with it the library
  behaviour that the language leaves open:
  \<^item> \<open>ar_norm\<close> is \<open>np.linalg.norm\<close> and \<open>ar_dot\<close> is \<open>np.dot\<close> on one-dimensional arrays of equal
    length, \<open>ar_mul\<close> and \<open>ar_div\<close> are \<open>*\<close> and \<open>/\<close>;
  \<^item> \<open>ar_zero\<close> is \<open>0.0\<close> and \<open>ar_threshold\<close> is \<open>0.3\<close>;
  \<^item> \<open>ar_int100 x\<close> is \<open>int(x * 100)\<close> for a float \<open>x\<close> that is not NaN; it raises
    \<open>OverflowError\<close> for an infinity;
  \<^item> \<open>ar_finite x\<close> holds when \<open>x\<close> is no infinity;
  \<^item> \<open>ar_of_real\<close> reads an entry of an embedder vector as a float;
  \<^item> \<open>ar_other q s\<close> is the outcome of \<open>np.array(json.loads(s))\<close> followed by
    \<open>cosine_similarity\<close> with the question vector \<open>q\<close> when the stored text \<open>s\<close> parses to
    something that is not a flat list of floats (a number, a string, a nested list, a list of
    integers): an exception, a number or an array;
  \<^item> \<open>ar_unordered keys\<close> is the order, as a list of positions, in which
    \<open>list.sort(reverse=True)\<close> leaves a list with these keys when a key is NaN and the
    comparisons are therefore inconsistent: Python leaves that order to the implementation
    of the sort.
\<close>

record 'f arith =
  ar_norm :: "'f pyfloat list \<Rightarrow> 'f pyfloat"
  ar_dot :: "'f pyfloat list \<Rightarrow> 'f pyfloat list \<Rightarrow> 'f pyfloat"
  ar_mul :: "'f pyfloat \<Rightarrow> 'f pyfloat \<Rightarrow> 'f pyfloat"
  ar_div :: "'f pyfloat \<Rightarrow> 'f pyfloat \<Rightarrow> 'f pyfloat"
  ar_zero :: 'f
  ar_threshold :: 'f
  ar_int100 :: "'f \<Rightarrow> error + int"
  ar_finite :: "'f \<Rightarrow> bool"
  ar_of_real :: "real \<Rightarrow> 'f pyfloat"
  ar_other :: "'f pyfloat list \<Rightarrow> string \<Rightarrow> error + 'f score"
  ar_unordered :: "'f pyfloat list \<Rightarrow> nat list"

text \<open>
  \<open>cosine_similarity(a, b)\<close> on one-dimensional arrays: \<open>0.0\<close> when a norm equals zero, else
  \<open>np.dot(a, b) / (norm_a * norm_b)\<close>; \<open>np.dot\<close> raises \<open>ValueError\<close> on arrays of different
  lengths.
\<close>

definition cosine_similarity ::
  "'f arith \<Rightarrow> 'f pyfloat list \<Rightarrow> 'f pyfloat list \<Rightarrow> error + 'f pyfloat" where
  "cosine_similarity ar a b =
     (let norm_a = ar_norm ar a; norm_b = ar_norm ar b
      in if py_eq norm_a (Num (ar_zero ar)) \<or> py_eq norm_b (Num (ar_zero ar))
         then Inr (Num (ar_zero ar))
         else if length a \<noteq> length b then Inl ValueError
         else Inr (ar_div ar (ar_dot ar a b) (ar_mul ar norm_a norm_b)))"

text \<open>
  The embedder as the specification words it: a zero vector of length \<open>D\<close>; for the
  character at each position \<open>i\<close>, \<open>ord(char)/1000\<close> added at position \<open>i mod D\<close>; then the vector
  divided by its Euclidean norm, unless the norm is zero. A batch is embedded text by text.
\<close>

fun spec_add :: "nat \<Rightarrow> nat \<Rightarrow> string \<Rightarrow> vec \<Rightarrow> vec" where
  "spec_add D i [] v = v"
| "spec_add D i (c # cs) v =
     spec_add D (Suc i) cs (v[i mod D := v ! (i mod D) + real (of_char c) / 1000])"

definition spec_embed :: "nat \<Rightarrow> string \<Rightarrow> vec" where
  "spec_embed D text =
     (let v = spec_add D 0 text (replicate D 0);
          n = sqrt (sum_list (map (\<lambda>x. x\<^sup>2) v))
      in if n = 0 then v else map (\<lambda>x. x / n) v)"

definition spec_embed_batch :: "nat \<Rightarrow> string list \<Rightarrow> vec list" where
  "spec_embed_batch D texts = map (spec_embed D) texts"

text \<open>Two machines for the examples below: one that allocates every array, one that cannot
  hold more than \<open>10^9\<close> entries.\<close>

definition unlimited :: allocator where
  "unlimited kind n = None"


section \<open>models and \<open>save_pdf_to_db\<close>\<close>

text \<open>
  The column \<open>PDFChunk.embedding\<close> is a text holding JSON. The model keeps, for a stored text,
  what \<open>json.loads\<close> makes of it:
  \<^item> \<open>JsonArray v\<close> is a text that parses to the flat list of floats \<open>v\<close>, as \<open>json.dumps\<close>
    writes it for a list of floats; \<open>NaN\<close> and \<open>Infinity\<close> are literals that \<open>json.dumps\<close>
    writes and \<open>json.loads\<close> reads;
  \<^item> \<open>JsonOther s\<close> is a text \<open>s\<close> that parses to anything else;
  \<^item> \<open>Malformed s\<close> is a text \<open>s\<close> on which \<open>json.loads\<close> raises.
\<close>

datatype 'f json_text = JsonArray "'f pyfloat list" | JsonOther string | Malformed string

datatype 'f json_value = Numbers "'f pyfloat list" | Other string


fun json_loads :: "'f json_text \<Rightarrow> error + 'f json_value" where
  "json_loads (JsonArray v) = Inr (Numbers v)"
| "json_loads (JsonOther s) = Inr (Other s)"
| "json_loads (Malformed s) = Inl JSONDecodeError"

record PDF =
  PDF_id :: nat
  original_filename :: string
  stored_filename :: string

record PDFContent =
  content_pdf_id :: nat
  text_content :: string

record 'f PDFChunk =
  chunk_pdf_id :: nat
  chunk_text :: string
  chunk_index :: nat
  embedding :: "'f json_text"

text \<open>The three tables, in row order.\<close>

record 'f database =
  pdfs :: "PDF list"
  pdf_contents :: "PDFContent list"
  pdf_chunks :: "'f PDFChunk list"











text \<open>
  For the examples below, the arithmetic that neither rounds nor overflows, on the reals.
  The examples use dimension 1 and the numbers \<open>-1\<close>, \<open>0\<close>, \<open>1\<close> and \<open>2\<close>, on which the
  floating-point operations give the same results. Every stored text of the examples is a
  list of floats or malformed: for \<open>ar_other\<close> the remaining texts are taken to be of the kind
  that NumPy rejects, such as a JSON string, and \<open>ar_unordered\<close>, which no example reaches,
  leaves the list alone.
\<close>

fun all_nums :: "'f pyfloat list \<Rightarrow> 'f list option" where
  "all_nums [] = Some []"
| "all_nums (NaN # v) = None"
| "all_nums (Num x # v) = (case all_nums v of None \<Rightarrow> None | Some xs \<Rightarrow> Some (x # xs))"

definition exact_arith :: "real arith" where
  "exact_arith =
     \<lparr>ar_norm = (\<lambda>v. case all_nums v of None \<Rightarrow> NaN | Some xs \<Rightarrow> Num (l2_norm xs)),
      ar_dot = (\<lambda>a b. case (all_nums a, all_nums b) of
                  (Some xs, Some ys) \<Rightarrow> Num (sum_list (map (\<lambda>(x, y). x * y) (zip xs ys)))
                | other \<Rightarrow> NaN),
      ar_mul = (\<lambda>a b. case (a, b) of (Num x, Num y) \<Rightarrow> Num (x * y) | other \<Rightarrow> NaN),
      ar_div = (\<lambda>a b. case (a, b) of
                  (Num x, Num y) \<Rightarrow> if y = 0 then NaN else Num (x / y)
                | other \<Rightarrow> NaN),
      ar_zero = 0,
      ar_threshold = 3 / 10,
      ar_int100 = (\<lambda>x. Inr (if 0 \<le> x then \<lfloor>x * 100\<rfloor> else \<lceil>x * 100\<rceil>)),
      ar_finite = (\<lambda>x. True),
      ar_of_real = Num,
      ar_other = (\<lambda>q s. Inl TypeError),
      ar_unordered = (\<lambda>keys. [0..<length keys])\<rparr>"

definition empty_db :: "real database" where
  "empty_db = \<lparr>pdfs = [], pdf_contents = [], pdf_chunks = []\<rparr>"

text \<open>Four configurations for the examples below.\<close>

definition cfg_dim1 :: embedding_config where
  "cfg_dim1 = \<lparr>EMBEDDING_DIM = 1, USE_EXTERNAL_EMBEDDINGS = False\<rparr>"

definition cfg_dim0 :: embedding_config where
  "cfg_dim0 = \<lparr>EMBEDDING_DIM = 0, USE_EXTERNAL_EMBEDDINGS = False\<rparr>"

definition cfg_default :: embedding_config where
  "cfg_default = \<lparr>EMBEDDING_DIM = DEFAULT_EMBEDDING_DIM, USE_EXTERNAL_EMBEDDINGS = False\<rparr>"


section \<open>qa\_service and the search endpoint\<close>

definition TOP_K_CHUNKS :: nat where "TOP_K_CHUNKS = 3"

text \<open>
  \<open>xs.sort(key=key, reverse=True)\<close> on keys that are integers: Python's sort is stable, also
  with \<open>reverse=True\<close>; the result is in descending order of the key and elements with equal
  keys keep their order.
\<close>

definition py_sort_reverse :: "('a \<Rightarrow> 'k::linordered_idom) \<Rightarrow> 'a list \<Rightarrow> 'a list" where
  "py_sort_reverse key xs = sort_key (\<lambda>x. - key x) xs"

text \<open>
  \<open>xs.sort(key=key, reverse=True)\<close> on keys of any linear order, as CPython does it: the
  list is reversed, sorted stably in ascending order, and reversed again.
\<close>

definition stable_descending :: "('a \<Rightarrow> 'k::linorder) \<Rightarrow> 'a list \<Rightarrow> 'a list" where
  "stable_descending key xs = rev (sort_key key (rev xs))"

text \<open>The number that a score is, if it is one.\<close>

fun number_of :: "'f score \<Rightarrow> 'f option" where
  "number_of (Scalar (Num v)) = Some v"
| "number_of (Scalar NaN) = None"
| "number_of ArrayScore = None"

definition is_number :: "'f score \<Rightarrow> bool" where
  "is_number s = (number_of s \<noteq> None)"

fun float_of :: "'f score \<Rightarrow> 'f pyfloat" where
  "float_of (Scalar x) = x"
| "float_of ArrayScore = NaN"

text \<open>
  A list in which no element is less than the element before it. On such a list the sort
  finds one ascending run that spans the list, and moves nothing.
\<close>

fun one_run :: "'f::linorder pyfloat list \<Rightarrow> bool" where
  "one_run (a # b # rest) = (\<not> py_lt b a \<and> one_run (b # rest))"
| "one_run rest = True"

text \<open>
  \<open>xs.sort(key=key, reverse=True)\<close> on keys that are scores.
  \<^item> A list of fewer than two elements is returned without any comparison.
  \<^item> Otherwise every element is compared with another one, and the comparison with an array
    raises \<open>ValueError\<close>.
  \<^item> On keys that are numbers the order is linear and the sort is the stable one.
  \<^item> On keys with a NaN, every comparison with the NaN is false. When the reversed list is
    one run, that is when no element is less than the one after it, the list stays as it
    is; the outcome on the other lists is that of \<open>ar_unordered\<close>.
\<close>

definition sort_reverse :: "'f::linorder arith \<Rightarrow> ('a \<Rightarrow> 'f score) \<Rightarrow> 'a list \<Rightarrow> error + 'a list" where
  "sort_reverse ar key xs =
     (if length xs < 2 then Inr xs
      else if list_ex (\<lambda>x. key x = ArrayScore) xs then Inl ValueError
      else if list_all (\<lambda>x. is_number (key x)) xs
        then Inr (stable_descending (\<lambda>x. number_of (key x)) xs)
      else if one_run (rev (map (\<lambda>x. float_of (key x)) xs)) then Inr xs
      else Inr (map (\<lambda>i. xs ! i)
                  (filter (\<lambda>i. i < length xs) (ar_unordered ar (map (\<lambda>x. float_of (key x)) xs)))))"

text \<open>
  The body of the \<open>try\<close> block of the scoring loop: \<open>np.array(json.loads(chunk.embedding))\<close>,
  then \<open>cosine_similarity\<close>.
\<close>

definition try_score :: "'f arith \<Rightarrow> 'f pyfloat list \<Rightarrow> 'f PDFChunk \<Rightarrow> error + 'f score" where
  "try_score ar question_embedding chunk =
     (case json_loads (embedding chunk) of
        Inl e \<Rightarrow> Inl e
      | Inr (Numbers chunk_embedding) \<Rightarrow>
          (case cosine_similarity ar question_embedding chunk_embedding of
             Inl e \<Rightarrow> Inl e
           | Inr s \<Rightarrow> Inr (Scalar s))
      | Inr (Other s) \<Rightarrow> ar_other ar question_embedding s)"

text \<open>The scoring loop: an exception is logged and the chunk is skipped.\<close>

fun score_loop ::
  "'f arith \<Rightarrow> 'f pyfloat list \<Rightarrow> 'f PDFChunk list \<Rightarrow> ('f PDFChunk \<times> 'f score) list
     \<Rightarrow> ('f PDFChunk \<times> 'f score) list" where
  "score_loop ar q [] chunk_scores = chunk_scores"
| "score_loop ar q (chunk # chunks) chunk_scores =
     (case try_score ar q chunk of
        Inl e \<Rightarrow> score_loop ar q chunks chunk_scores
      | Inr s \<Rightarrow> score_loop ar q chunks (chunk_scores @ [(chunk, s)]))"

text \<open>\<open>chunk_scores.sort(key=lambda x: x[1], reverse=True)\<close> and \<open>chunk_scores[:TOP_K_CHUNKS]\<close>.\<close>

definition top_chunks_of ::
  "'f::linorder arith \<Rightarrow> 'f pyfloat list \<Rightarrow> 'f PDFChunk list
     \<Rightarrow> error + ('f PDFChunk \<times> 'f score) list" where
  "top_chunks_of ar q chunks =
     (case sort_reverse ar snd (score_loop ar q chunks []) of
        Inl e \<Rightarrow> Inl e
      | Inr chunk_scores \<Rightarrow> Inr (take TOP_K_CHUNKS chunk_scores))"

text \<open>\<open>str(n)\<close> for an integer.\<close>

fun str_nat :: "nat \<Rightarrow> string" where
  "str_nat n =
     (if n < 10 then [char_of (of_char (CHR ''0'') + n)]
      else str_nat (n div 10) @ [char_of (of_char (CHR ''0'') + n mod 10)])"

definition str_int :: "int \<Rightarrow> string" where
  "str_int i = (if i < 0 then CHR ''-'' # str_nat (nat (- i)) else str_nat (nat i))"

text \<open>
  \<open>int(best_score * 100)\<close>: \<open>TypeError\<close> for an array of several elements, \<open>ValueError\<close> for NaN.
\<close>

definition confidence_of :: "'f arith \<Rightarrow> 'f score \<Rightarrow> error + int" where
  "confidence_of ar best_score =
     (case best_score of
        ArrayScore \<Rightarrow> Inl TypeError
      | Scalar NaN \<Rightarrow> Inl ValueError
      | Scalar (Num v) \<Rightarrow> ar_int100 ar v)"

definition generate_answer ::
  "'f arith \<Rightarrow> string \<Rightarrow> ('f PDFChunk \<times> 'f score) list \<Rightarrow> error + string" where
  "generate_answer ar question top_chunks =
     (case top_chunks of
        [] \<Rightarrow> Inl IndexError
      | (best_chunk, best_score) # rest \<Rightarrow>
          (case confidence_of ar best_score of
             Inl e \<Rightarrow> Inl e
           | Inr confidence \<Rightarrow>
              (let tail = chunk_text best_chunk @ [NL, NL] @ ''Source: PDF #''
                          @ str_nat (chunk_pdf_id best_chunk) @ [NL] @ ''Confidence: ''
                          @ str_int confidence @ ''%''
               in if confidence \<ge> 70 then
                    Inr (''Based on the PDF content, I found this information:'' @ [NL, NL] @ tail)
                  else if confidence \<ge> 40 then
                    Inr (''I'' @ [CHR 0x27] @ ''m not entirely sure, but here''  @ [CHR 0x27]
                         @ ''s what I found in the PDF:'' @ [NL, NL] @ tail)
                  else
                    Inr (''I couldn'' @ [CHR 0x27]
                         @ ''t find a definitive answer, but this might be relevant:''
                         @ [NL, NL] @ tail))))"

definition no_content_message :: string where
  "no_content_message =
     ''No PDF content available to answer questions. Please upload a PDF first.''"

definition not_found_message :: string where
  "not_found_message =
     ''I couldn'' @ [CHR 0x27] @ ''t find any relevant information in the uploaded PDFs.''"

text \<open>
  \<open>answer_question(db, question)\<close>. The embedding of the question is computed outside any
  \<open>try\<close>, and so are the sort and \<open>generate_answer\<close>: their exceptions leave the function.
\<close>

definition answer_question ::
  "allocator \<Rightarrow> 'f::linorder arith \<Rightarrow> embedding_config \<Rightarrow> 'f database \<Rightarrow> string
     \<Rightarrow> error + string" where
  "answer_question alloc ar cfg db question =
     (case get_embeddings alloc cfg [question] None of
        Inl e \<Rightarrow> Inl e
      | Inr [] \<Rightarrow> Inl IndexError
      | Inr (question_embedding # others) \<Rightarrow>
          (let chunks = pdf_chunks db
           in if chunks = [] then Inr no_content_message
              else (case top_chunks_of ar (map (ar_of_real ar) question_embedding) chunks of
                      Inl e \<Rightarrow> Inl e
                    | Inr top_chunks \<Rightarrow>
                        if top_chunks = [] then Inr not_found_message
                        else generate_answer ar question top_chunks)))"

text \<open>
  The \<open>/search\<close> endpoint. A result is kept when its score exceeds \<open>0.3\<close>, which is false
  of NaN and raises, inside the \<open>try\<close>, for an array; the results are sorted by score with
  \<open>reverse=True\<close> and the first ten are returned. Every exception is answered with status 500,
  that of the JSON encoder of the response included, which refuses an infinity.
\<close>

record 'f search_result =
  result_pdf_id :: nat
  pdf_name :: string
  result_chunk_index :: nat
  result_chunk_text :: string
  score :: 'f

definition make_result :: "'f database \<Rightarrow> 'f PDFChunk \<Rightarrow> 'f \<Rightarrow> 'f search_result" where
  "make_result db chunk s =
     \<lparr>result_pdf_id = chunk_pdf_id chunk,
      pdf_name = (case find (\<lambda>p. PDF_id p = chunk_pdf_id chunk) (pdfs db) of
                    Some pdf \<Rightarrow> original_filename pdf
                  | None \<Rightarrow> ''PDF #'' @ str_nat (chunk_pdf_id chunk)),
      result_chunk_index = chunk_index chunk,
      result_chunk_text = (if length (chunk_text chunk) > 200
                           then take 200 (chunk_text chunk) @ ''...''
                           else chunk_text chunk),
      score = s\<rparr>"

fun search_loop ::
  "'f::linorder arith \<Rightarrow> 'f database \<Rightarrow> 'f pyfloat list \<Rightarrow> 'f PDFChunk list
     \<Rightarrow> 'f search_result list \<Rightarrow> 'f search_result list" where
  "search_loop ar db q [] results = results"
| "search_loop ar db q (chunk # chunks) results =
     (case try_score ar q chunk of
        Inl e \<Rightarrow> search_loop ar db q chunks results
      | Inr ArrayScore \<Rightarrow> search_loop ar db q chunks results
      | Inr (Scalar NaN) \<Rightarrow> search_loop ar db q chunks results
      | Inr (Scalar (Num s)) \<Rightarrow>
          (if ar_threshold ar < s
           then search_loop ar db q chunks (results @ [make_result db chunk s])
           else search_loop ar db q chunks results))"

datatype 'f search_response =
    BadRequest
  | NoDocuments
  | SearchResults "'f search_result list" nat
  | ServerError error

definition search_pdfs ::
  "allocator \<Rightarrow> 'f::linorder arith \<Rightarrow> embedding_config \<Rightarrow> 'f database \<Rightarrow> string
     \<Rightarrow> 'f search_response" where
  "search_pdfs alloc ar cfg db query =
     (if query = [] \<or> length query < 3 then BadRequest
      else
        (case get_embeddings alloc cfg [query] None of
           Inl e \<Rightarrow> ServerError e
         | Inr [] \<Rightarrow> ServerError IndexError
         | Inr (query_embedding # others) \<Rightarrow>
             (let chunks = pdf_chunks db
              in if chunks = [] then NoDocuments
                 else (case sort_reverse ar (\<lambda>r. Scalar (Num (score r)))
                              (search_loop ar db (map (ar_of_real ar) query_embedding) chunks []) of
                         Inl e \<Rightarrow> ServerError e
                       | Inr results \<Rightarrow>
                           (let top_results = take 10 results
                            in if list_all (\<lambda>r. ar_finite ar (score r)) top_results
                               then SearchResults top_results (length results)
                               else ServerError ValueError)))))"

text \<open>
  Databases for the examples below, each with one PDF: one whose stored embeddings do not
  parse; one with a chunk that parses between two that do not; one with four chunks that
  score \<open>-1\<close>, \<open>1\<close>, \<open>0\<close> and \<open>1\<close> against a one-dimensional question; and one with three chunks
  that score \<open>0\<close>, NaN and \<open>1\<close>.
\<close>

definition chunk_row :: "string \<Rightarrow> nat \<Rightarrow> real json_text \<Rightarrow> real PDFChunk" where
  "chunk_row s i e = \<lparr>chunk_pdf_id = 1, chunk_text = s, chunk_index = i, embedding = e\<rparr>"

definition db_with :: "real PDFChunk list \<Rightarrow> real database" where
  "db_with rows =
     \<lparr>pdfs = [\<lparr>PDF_id = 1, original_filename = ''a.pdf'', stored_filename = ''1.pdf''\<rparr>],
      pdf_contents = [\<lparr>content_pdf_id = 1, text_content = ''x y''\<rparr>],
      pdf_chunks = rows\<rparr>"

definition db_malformed :: "real database" where
  "db_malformed =
     db_with [chunk_row ''x'' 0 (Malformed ''[0.1,''), chunk_row ''y'' 1 (Malformed ''oops'')]"

definition db_mixed :: "real database" where
  "db_mixed =
     db_with [chunk_row ''m'' 0 (Malformed ''[0.1,''),
              chunk_row ''x'' 1 (JsonArray [Num 1]),
              chunk_row ''n'' 2 (Malformed ''oops'')]"

definition db_tie :: "real database" where
  "db_tie =
     db_with [chunk_row ''w'' 0 (JsonArray [Num (- 1)]),
              chunk_row ''x'' 1 (JsonArray [Num 1]),
              chunk_row ''z'' 2 (JsonArray [Num 0]),
              chunk_row ''y'' 3 (JsonArray [Num 2])]"

definition db_nan :: "real database" where
  "db_nan =
     db_with [chunk_row ''low'' 0 (JsonArray [Num 0]),
              chunk_row ''nan'' 1 (JsonArray [NaN]),
              chunk_row ''high'' 2 (JsonArray [Num 1])]"

section \<open>azure\_openai\_client and gemini\_service\<close>

text \<open>The process environment: \<open>os.environ.get(name)\<close> is \<open>env name\<close>.\<close>

type_synonym environ = "string \<Rightarrow> string option"

text \<open>Truthiness of \<open>os.environ.get(name)\<close> and Python's \<open>a or b\<close> on such values.\<close>

definition py_truthy :: "string option \<Rightarrow> bool" where
  "py_truthy v = (case v of None \<Rightarrow> False | Some s \<Rightarrow> s \<noteq> [])"

definition py_or :: "string option \<Rightarrow> string option \<Rightarrow> string option" where
  "py_or a b = (if py_truthy a then a else b)"

text \<open>\<open>_llm_configured\<close> and \<open>llm_available\<close> of gemini\_service.\<close>

definition llm_configured :: "environ \<Rightarrow> bool" where
  "llm_configured env =
     (let api_key = py_or (py_or (env ''LLM_API_KEY'') (env ''AZURE_OPENAI_API_KEY''))
                          (env ''OPENAI_API_KEY'');
          base_url = py_or (py_or (env ''LLM_AZURE_BASE_URL'') (env ''AZURE_OPENAI_ENDPOINT''))
                           (env ''AZURE_OPENAI_BASE_URL'');
          deployment = py_or (env ''LLM_AZURE_DEPLOYMENT'') (env ''AZURE_OPENAI_DEPLOYMENT'')
      in py_truthy api_key \<and> py_truthy base_url \<and> py_truthy deployment)"

definition llm_available :: "environ \<Rightarrow> bool" where
  "llm_available env = llm_configured env"

text \<open>
  \<open>_env_first(*names)\<close> of azure\_openai\_client: the stripped value of the first name whose
  value is set and not blank.
\<close>

fun env_first :: "environ \<Rightarrow> string list \<Rightarrow> string option" where
  "env_first env [] = None"
| "env_first env (name # names) =
     (case env name of
        None \<Rightarrow> env_first env names
      | Some val \<Rightarrow> if strip val \<noteq> [] then Some (strip val) else env_first env names)"

record azure_config =
  api_key :: string
  base_url :: string
  api_version :: string
  deployment :: string

text \<open>\<open>_get_azure_config\<close>: raises \<open>AzureOpenAIConfigError\<close> when a required setting is missing.\<close>

definition get_azure_config :: "environ \<Rightarrow> error + azure_config" where
  "get_azure_config env =
     (case (env_first env [''LLM_API_KEY'', ''AZURE_OPENAI_API_KEY'', ''OPENAI_API_KEY''],
            env_first env [''LLM_AZURE_BASE_URL'', ''AZURE_OPENAI_ENDPOINT'', ''AZURE_OPENAI_BASE_URL''],
            env_first env [''LLM_AZURE_DEPLOYMENT'', ''AZURE_OPENAI_DEPLOYMENT'']) of
        (Some k, Some b, Some d) \<Rightarrow>
          Inr \<lparr>api_key = k, base_url = b,
               api_version = (case env_first env [''LLM_AZURE_API_VERSION'', ''AZURE_OPENAI_API_VERSION''] of
                                Some v \<Rightarrow> v | None \<Rightarrow> ''2024-02-01''),
               deployment = d\<rparr>
      | _ \<Rightarrow> Inl AzureOpenAIConfigError)"

text \<open>
  The prompts are long fixed texts around a few values; a prompt is kept as those values.
  The remote service is an argument: \<open>remote cfg prompt\<close> is the outcome of the HTTP request
  of \<open>chat_completion_sync\<close>, which is made only after \<open>_get_azure_config\<close> has returned.
\<close>

datatype prompt =
    FollowupPrompt string string
  | ChunksPrompt string string "string list"
  | FullPrompt string "string list" "string list"

type_synonym remote_service = "azure_config \<Rightarrow> prompt \<Rightarrow> error + string"

definition llm_generate :: "environ \<Rightarrow> remote_service \<Rightarrow> prompt \<Rightarrow> error + string" where
  "llm_generate env remote p =
     (case get_azure_config env of
        Inl e \<Rightarrow> Inl e
      | Inr cfg \<Rightarrow> remote cfg p)"

definition followup_apology :: string where
  "followup_apology =
     ''I apologize, but I'' @ [CHR 0x27] @ ''m having trouble generating a better answer. ''
     @ ''Let me try a different approach to help you with your question.''"

text \<open>
  \<open>generate_followup_answer\<close>: every exception is caught and the apology is returned.
  \<open>decorate\<close> stands for \<open>format_code_blocks\<close> followed by \<open>add_thinking_effect\<close>.
\<close>

definition generate_followup_answer ::
  "environ \<Rightarrow> remote_service \<Rightarrow> (string \<Rightarrow> string) \<Rightarrow> string \<Rightarrow> string \<Rightarrow> string" where
  "generate_followup_answer env remote decorate question previous_answer =
     (case llm_generate env remote (FollowupPrompt question previous_answer) of
        Inl e \<Rightarrow> followup_apology
      | Inr improved_answer \<Rightarrow> decorate improved_answer)"

text \<open>\<open>s.lower()\<close> on code points below 256, and \<open>s.split()\<close>.\<close>

definition lower_char :: "char \<Rightarrow> char" where
  "lower_char c =
     (let n = (of_char c :: nat)
      in if (65 \<le> n \<and> n \<le> 90) \<or> (192 \<le> n \<and> n \<le> 214) \<or> (216 \<le> n \<and> n \<le> 222)
         then char_of (n + 32) else c)"

definition py_lower :: "string \<Rightarrow> string" where
  "py_lower s = map lower_char s"

fun split_words :: "string \<Rightarrow> string \<Rightarrow> string list" where
  "split_words cur [] = (if cur = [] then [] else [cur])"
| "split_words cur (c # cs) =
     (if isspace c then (if cur = [] then split_words [] cs else cur # split_words [] cs)
      else split_words (cur @ [c]) cs)"

definition py_split :: "string \<Rightarrow> string list" where
  "py_split s = split_words [] s"

definition stop_words :: "string list" where
  "stop_words =
     [''the'', ''a'', ''is'', ''are'', ''in'', ''on'', ''of'', ''and'', ''or'', ''to'', ''for'',
      ''with'', ''about'', ''what'', ''how'', ''why'', ''when'', ''where'', ''who'', ''which'']"

text \<open>
  \<open>keywords = [word for word in question_lower.split() if word not in stop_words and len(word) > 2]\<close>
\<close>

definition extract_keywords :: "string \<Rightarrow> string list" where
  "extract_keywords question =
     filter (\<lambda>word. word \<notin> set stop_words \<and> length word > 2) (py_split (py_lower question))"

text \<open>\<open>any(keyword in chunk_text for keyword in keywords)\<close> with \<open>chunk_text = chunk.chunk_text.lower()\<close>.\<close>

definition keyword_match :: "string list \<Rightarrow> 'f PDFChunk \<Rightarrow> bool" where
  "keyword_match keywords chunk =
     list_ex (\<lambda>keyword. py_in keyword (py_lower (chunk_text chunk))) keywords"

text \<open>The loop that fills \<open>relevant_chunks\<close> with pairs of chunk text and PDF id.\<close>

fun relevant_loop :: "string list \<Rightarrow> 'f PDFChunk list \<Rightarrow> (string \<times> nat) list \<Rightarrow> (string \<times> nat) list" where
  "relevant_loop keywords [] relevant_chunks = relevant_chunks"
| "relevant_loop keywords (chunk # chunks) relevant_chunks =
     (if keyword_match keywords chunk
      then relevant_loop keywords chunks (relevant_chunks @ [(chunk_text chunk, chunk_pdf_id chunk)])
      else relevant_loop keywords chunks relevant_chunks)"

text \<open>The sort key: \<open>sum(keyword in chunk[0].lower() for keyword in keywords)\<close>.\<close>

definition keyword_count :: "string list \<Rightarrow> string \<times> nat \<Rightarrow> int" where
  "keyword_count keywords chunk =
     sum_list (map (\<lambda>keyword. if py_in keyword (py_lower (fst chunk)) then 1 else 0) keywords)"

definition context_separator :: string where
  "context_separator = [NL, NL] @ ''---'' @ [NL, NL]"

text \<open>
  Approach 1: \<open>relevant_chunks.sort(key=..., reverse=True)\<close>, the texts of the first eight and
  their join.
\<close>

definition top_relevant :: "string list \<Rightarrow> (string \<times> nat) list \<Rightarrow> string list" where
  "top_relevant keywords relevant_chunks =
     map fst (take 8 (py_sort_reverse (keyword_count keywords) relevant_chunks))"

definition combined_content :: "string list \<Rightarrow> (string \<times> nat) list \<Rightarrow> string" where
  "combined_content keywords relevant_chunks =
     py_join context_separator (top_relevant keywords relevant_chunks)"


text \<open>
  \<open>answer_question_with_ai\<close>, followed up to the first request to the answer generator. The
  result says how the function returns or with which context it asks the generator:
  \<^item> \<open>FollowupAnswer a\<close>: the success response of the follow-up branch, with answer \<open>a\<close>;
  \<^item> \<open>NotAvailable\<close>: the failure response "AI services not available. Configure ...";
  \<^item> \<open>PdfNotFound\<close>, \<open>NoExtractableContent\<close>: the failure responses for a scope without PDF
    or without content;
  \<^item> \<open>NoPdfs\<close>, \<open>NoPdfContent\<close>: the question is handed to \<open>handle_tech_question\<close> and
    \<open>handle_conversational_query\<close>, and failing those the failure response "No PDFs have been
    uploaded ..." or "No PDF content available ..." is returned;
  \<^item> \<open>AskWithChunks c titles\<close>: approach 1, the generator is asked with the primary context \<open>c\<close>;
  \<^item> \<open>AskWithFullContent\<close>: no chunk matched, the generator is asked with samples of the
    full texts.
  When the generator is asked and \<open>_get_azure_config\<close> raises, the handlers end in the
  response "AI services not available. Configure ...".
\<close>

datatype ai_response =
    FollowupAnswer string
  | NotAvailable
  | PdfNotFound nat
  | NoExtractableContent nat
  | NoPdfs
  | NoPdfContent
  | AskWithChunks string "string list"
  | AskWithFullContent "string list" "string list"

text \<open>The chunks in scope: those of one PDF, or all.\<close>

definition scope_chunks :: "'f database \<Rightarrow> nat option \<Rightarrow> 'f PDFChunk list" where
  "scope_chunks db pdf_id =
     (case pdf_id of
        Some i \<Rightarrow> filter (\<lambda>c. chunk_pdf_id c = i) (pdf_chunks db)
      | None \<Rightarrow> pdf_chunks db)"

text \<open>The first content row of a PDF, when it has text.\<close>

definition content_of :: "'f database \<Rightarrow> nat \<Rightarrow> string option" where
  "content_of db i =
     (case find (\<lambda>r. content_pdf_id r = i) (pdf_contents db) of
        None \<Rightarrow> None
      | Some r \<Rightarrow> if text_content r = [] then None else Some (text_content r))"

text \<open>The part of the function after the retrieval: approach 1 or the full content.\<close>

definition ask_generator ::
  "environ \<Rightarrow> string list \<Rightarrow> (string \<times> nat) list \<Rightarrow> string list \<Rightarrow> string list \<Rightarrow> ai_response" where
  "ask_generator env keywords relevant_chunks contents titles =
     (if contents = [] then NoPdfContent
      else if isl (get_azure_config env) then NotAvailable
      else if relevant_chunks \<noteq> [] then AskWithChunks (combined_content keywords relevant_chunks) titles
      else AskWithFullContent contents titles)"

definition answer_question_with_ai ::
  "environ \<Rightarrow> remote_service \<Rightarrow> (string \<Rightarrow> string) \<Rightarrow> 'f database \<Rightarrow> string \<Rightarrow> nat option
     \<Rightarrow> bool \<Rightarrow> string option \<Rightarrow> ai_response" where
  "answer_question_with_ai env remote decorate db question pdf_id is_followup previous_answer =
     (if is_followup \<and> py_truthy previous_answer then
        FollowupAnswer (generate_followup_answer env remote decorate question (the previous_answer))
      else if \<not> llm_available env then NotAvailable
      else
        (let keywords = extract_keywords question
         in case pdf_id of
              Some i \<Rightarrow>
                (case find (\<lambda>p. PDF_id p = i) (pdfs db) of
                   None \<Rightarrow> PdfNotFound i
                 | Some pdf \<Rightarrow>
                     (case content_of db i of
                        None \<Rightarrow> NoExtractableContent i
                      | Some content \<Rightarrow>
                          ask_generator env keywords
                            (relevant_loop keywords (scope_chunks db (Some i)) [])
                            [content] [original_filename pdf]))
            | None \<Rightarrow>
                (if pdfs db = [] then NoPdfs
                 else
                   (let with_content = filter (\<lambda>p. content_of db (PDF_id p) \<noteq> None) (pdfs db)
                    in ask_generator env keywords
                         (relevant_loop keywords (scope_chunks db None) [])
                         (map (\<lambda>p. the (content_of db (PDF_id p))) with_content)
                         (map original_filename with_content)))))"

text \<open>Environments for the examples below: nothing set, and a blank API key.\<close>

definition env_unset :: environ where
  "env_unset = (\<lambda>name. None)"

definition env_blank_key :: environ where
  "env_blank_key =
     (\<lambda>name. if name = ''LLM_API_KEY'' then Some '' ''
              else if name = ''LLM_AZURE_BASE_URL'' then Some ''https://example.openai.azure.com''
              else if name = ''LLM_AZURE_DEPLOYMENT'' then Some ''gpt''
              else None)"





section \<open>Properties of the normalizer and the chunker\<close>

lemma collapse_runs_id: "c \<notin> set xs \<Longrightarrow> collapse_runs c xs = xs"
  by (induction c xs rule: collapse_runs.induct) auto

lemma collapse_runs_length: "length (collapse_runs c xs) \<le> length xs"
  by (induction c xs rule: collapse_runs.induct) auto

lemma strip_length: "length (strip s) \<le> length s"
proof -
  have "length (dropWhile isspace (rev (dropWhile isspace s))) \<le> length (rev (dropWhile isspace s))"
    by (rule length_dropWhile_le)
  also have "\<dots> \<le> length s" by (simp add: length_dropWhile_le)
  finally show ?thesis by (simp add: strip_def)
qed

lemma clean_text_length: "length (clean_text t) \<le> length t"
proof -
  have "length (clean_text t) \<le> length (filter (\<lambda>c. isprintable c \<or> c = NL) (collapse_runs SP (collapse_runs NL t)))"
    by (simp add: clean_text_def strip_length)
  also have "\<dots> \<le> length (collapse_runs SP (collapse_runs NL t))" by (rule length_filter_le)
  also have "\<dots> \<le> length (collapse_runs NL t)" by (rule collapse_runs_length)
  also have "\<dots> \<le> length t" by (rule collapse_runs_length)
  finally show ?thesis .
qed

lemma dropWhile_hd: "xs = [] \<or> \<not> P (hd xs) \<Longrightarrow> dropWhile P xs = xs"
  by (cases xs) auto

lemma strip_ends: "s = [] \<or> (\<not> isspace (hd s) \<and> \<not> isspace (last s)) \<Longrightarrow> strip s = s"
proof (cases "s = []")
  case True
  then show ?thesis by (simp add: strip_def)
next
  case False
  assume "s = [] \<or> (\<not> isspace (hd s) \<and> \<not> isspace (last s))"
  with False have h: "\<not> isspace (hd s)" and l: "\<not> isspace (last s)" by auto
  have 1: "dropWhile isspace s = s" using h by (simp add: dropWhile_hd)
  have "hd (rev s) = last s" using False by (simp add: hd_rev)
  then have 2: "dropWhile isspace (rev s) = rev s" using l by (simp add: dropWhile_hd)
  show ?thesis by (simp add: strip_def 1 2)
qed

lemma strip_no_space: "\<forall>c \<in> set s. \<not> isspace c \<Longrightarrow> strip s = s"
  by (rule strip_ends) (cases s, auto)

lemma re_split_no_nl: "NL \<notin> set xs \<Longrightarrow> re_split acc xs = [acc @ xs]"
  by (induction xs arbitrary: acc) auto

lemma prefix_marker_backtick: "prefix code_block_marker xs \<Longrightarrow> CHR 0x60 \<in> set xs"
  by (auto simp: code_block_marker_def prefix_def)

lemma py_in_marker_backtick: "py_in code_block_marker xs \<Longrightarrow> CHR 0x60 \<in> set xs"
  by (induction xs) (auto simp: code_block_marker_def dest: prefix_marker_backtick[unfolded code_block_marker_def])

lemma clean_text_id_plain:
  assumes "\<forall>c \<in> set s. isprintable c \<and> \<not> isspace c"
  shows "clean_text s = s"
proof -
  have nl: "NL \<notin> set s" and sp: "SP \<notin> set s"
    using assms by (auto simp: isspace_def)
  have "filter (\<lambda>c. isprintable c \<or> c = NL) s = s"
    using assms by (simp add: filter_id_conv)
  then show ?thesis
    using nl sp assms by (simp add: clean_text_def collapse_runs_id strip_no_space)
qed


lemma filter_dropWhile: "filter (\<lambda>x. \<not> P x) (dropWhile P xs) = filter (\<lambda>x. \<not> P x) xs"
  by (induction xs) auto

lemma nsp_strip: "nsp (strip s) = nsp s"
  by (simp add: strip_def rev_filter [symmetric] filter_dropWhile)

lemma strip_Nil_iff: "strip s = [] \<longleftrightarrow> nsp s = []"
proof -
  have "strip s = [] \<longleftrightarrow> nsp (strip s) = []"
  proof
    assume "nsp (strip s) = []"
    then have all: "\<forall>c \<in> set (strip s). isspace c" by (simp add: filter_empty_conv)
    show "strip s = []"
    proof (rule ccontr)
      assume ne: "strip s \<noteq> []"
      then have d: "dropWhile isspace (rev (dropWhile isspace s)) \<noteq> []" by (simp add: strip_def)
      then have "\<not> isspace (hd (dropWhile isspace (rev (dropWhile isspace s))))"
        by (rule hd_dropWhile)
      moreover have "hd (dropWhile isspace (rev (dropWhile isspace s))) \<in> set (strip s)"
        using d by (simp add: strip_def)
      ultimately show False using all by blast
    qed
  qed simp
  then show ?thesis by (simp add: nsp_strip)
qed

lemma last_dropWhile: "dropWhile P xs \<noteq> [] \<Longrightarrow> last (dropWhile P xs) = last xs"
  by (induction xs) (auto split: if_splits)

lemma strip_stripped:
  assumes "strip s \<noteq> []"
  shows "\<not> isspace (hd (strip s)) \<and> \<not> isspace (last (strip s))"
proof -
  let ?a = "dropWhile isspace s"
  let ?b = "dropWhile isspace (rev ?a)"
  have b: "?b \<noteq> []" using assms by (simp add: strip_def)
  then have a: "?a \<noteq> []" by (metis dropWhile.simps(1) rev.simps(1))
  have "last (strip s) = hd ?b" using b by (simp add: strip_def last_rev)
  moreover have "\<not> isspace (hd ?b)" using b by (rule hd_dropWhile)
  moreover have "hd (strip s) = last ?b" using b by (simp add: strip_def hd_rev)
  moreover have "last ?b = last (rev ?a)" using b by (rule last_dropWhile)
  moreover have "last (rev ?a) = hd ?a" using a by (simp add: last_rev)
  moreover have "\<not> isspace (hd ?a)" using a by (rule hd_dropWhile)
  ultimately show ?thesis by simp
qed

lemma isspace_NL: "isspace NL" by (simp add: isspace_def)

lemma nsp_sep_rest: "sep_rest cs = Some rest \<Longrightarrow> nsp rest = nsp cs"
proof -
  assume a: "sep_rest cs = Some rest"
  let ?w = "takeWhile isspace cs"
  have r: "rest = rev (takeWhile (\<lambda>c. c \<noteq> NL) (rev ?w)) @ dropWhile isspace cs"
    using a by (auto simp: sep_rest_def Let_def split: if_splits)
  have "set (takeWhile (\<lambda>c. c \<noteq> NL) (rev ?w)) \<subseteq> set ?w"
    using set_takeWhileD by fastforce
  moreover have "\<forall>c \<in> set ?w. isspace c" using set_takeWhileD by fastforce
  ultimately have 1: "nsp (rev (takeWhile (\<lambda>c. c \<noteq> NL) (rev ?w))) = []"
    by (auto simp: filter_empty_conv)
  have 2: "nsp ?w = []" using set_takeWhileD by (fastforce simp: filter_empty_conv)
  have "nsp cs = nsp (?w @ dropWhile isspace cs)" by simp
  also have "\<dots> = nsp (dropWhile isspace cs)" unfolding filter_append 2 by simp
  finally show ?thesis using r 1 by simp
qed

lemma nsp_re_split: "nsp (concat (re_split acc xs)) = nsp (acc @ xs)"
  by (induction acc xs rule: re_split.induct)
     (auto simp: isspace_NL nsp_sep_rest split: option.splits)

lemma re_split_hd: "\<exists>ys yss. re_split acc xs = (acc @ ys) # yss"
proof (induction acc xs rule: re_split.induct)
  case (1 acc)
  then show ?case by simp
next
  case (2 acc c cs)
  show ?case
  proof (cases "c = NL \<and> sep_rest cs \<noteq> None")
    case True
    then obtain rest where "sep_rest cs = Some rest" by auto
    with True have "re_split acc (c # cs) = (acc @ []) # re_split [] rest" by simp
    then show ?thesis by blast
  next
    case False
    then have e: "re_split acc (c # cs) = re_split (acc @ [c]) cs" by auto
    from False 2 obtain ys yss where "re_split (acc @ [c]) cs = ((acc @ [c]) @ ys) # yss"
      by (cases "c = NL") fastforce+
    with e have "re_split acc (c # cs) = (acc @ (c # ys)) # yss" by simp
    then show ?thesis by blast
  qed
qed


lemma paragraphs_neat: "p \<in> set (paragraphs_of t) \<Longrightarrow> neat p"
  by (auto simp: paragraphs_of_def dest: strip_stripped)

lemma nsp_strip_pieces:
  "nsp (concat (map strip (filter (\<lambda>p. strip p \<noteq> []) ps))) = nsp (concat ps)"
  by (induction ps) (auto simp: nsp_strip strip_Nil_iff)

lemma nsp_paragraphs: "nsp (concat (paragraphs_of t)) = nsp t"
  using nsp_re_split [of "[]" t] by (simp add: paragraphs_of_def nsp_strip_pieces)

lemma paragraphs_nonempty:
  assumes "t \<noteq> []" "\<not> isspace (hd t)"
  shows "paragraphs_of t \<noteq> []"
proof -
  from assms obtain c cs where t: "t = c # cs" and c: "\<not> isspace c" by (cases t) auto
  then have "c \<noteq> NL" using isspace_NL by auto
  then have "re_split [] t = re_split [c] cs" by (simp add: t)
  then obtain ys yss where r: "re_split [] t = ([c] @ ys) # yss"
    using re_split_hd [of "[c]" cs] by auto
  have "nsp ([c] @ ys) \<noteq> []" using c by simp
  then have "strip ([c] @ ys) \<noteq> []" by (simp only: strip_Nil_iff not_False_eq_True)
  then show ?thesis by (simp add: paragraphs_of_def r)
qed

lemma py_join_Cons: "zs \<noteq> [] \<Longrightarrow> py_join sep (x # zs) = x @ sep @ py_join sep zs"
  by (cases zs) auto

lemma py_join_mid: "py_join sep (xs @ (a @ sep @ b) # ys) = py_join sep (xs @ a # b # ys)"
proof (induction xs)
  case Nil
  then show ?case by (cases ys) auto
next
  case (Cons x xs)
  then show ?case by (simp add: py_join_Cons)
qed

lemma nsp_py_join: "\<forall>c \<in> set sep. isspace c \<Longrightarrow> nsp (py_join sep xs) = nsp (concat xs)"
  by (induction sep xs rule: py_join.induct) (auto simp: filter_empty_conv)

lemma paragraph_loop_step:
  "paragraph_loop (p # ps) (chunks, cur, icb) =
     paragraph_loop ps
       (if length cur + length p > MAX_CHUNK_SIZE \<and> length cur \<ge> MIN_CHUNK_SIZE
        then (chunks @ [strip cur], p, toggle_code_block icb p)
        else (chunks, (if cur \<noteq> [] then cur @ [NL, NL] @ p else p), toggle_code_block icb p))"
  by (simp add: Let_def)

lemma paragraph_loop_inv:
  assumes "\<forall>p \<in> set ps. neat p" "neat cur"
    and "paragraph_loop ps (chunks, cur, icb) = (chunks', cur', icb')"
  shows "neat cur' \<and> py_join [NL, NL] (chunks' @ [cur']) = py_join [NL, NL] (chunks @ cur # ps)"
  using assms
proof (induction ps arbitrary: chunks cur icb)
  case Nil
  then show ?case by simp
next
  case (Cons p ps)
  have p: "neat p" and ps: "\<forall>p \<in> set ps. neat p" using Cons.prems(1) by auto
  have cur: "neat cur" using Cons.prems(2) by simp
  show ?case
  proof (cases "length cur + length p > MAX_CHUNK_SIZE \<and> length cur \<ge> MIN_CHUNK_SIZE")
    case True
    then have "paragraph_loop ps (chunks @ [strip cur], p, toggle_code_block icb p) = (chunks', cur', icb')"
      using Cons.prems(3) by (simp add: paragraph_loop_step del: paragraph_loop.simps)
    from Cons.IH [OF ps p this] show ?thesis
      using cur by (simp add: strip_ends)
  next
    case False
    let ?c = "cur @ [NL, NL] @ p"
    have n: "neat ?c" using p cur by (simp add: hd_append)
    have "paragraph_loop ps (chunks, ?c, toggle_code_block icb p) = (chunks', cur', icb')"
      using Cons.prems(3) False cur by (simp add: paragraph_loop_step del: paragraph_loop.simps)
    from Cons.IH [OF ps n this] show ?thesis
      using py_join_mid [of "[NL, NL]" chunks cur p ps] by simp
  qed
qed

lemma paragraph_chunks_join:
  assumes "t \<noteq> []" "\<not> isspace (hd t)"
  shows "paragraph_chunks t \<noteq> []
         \<and> py_join [NL, NL] (paragraph_chunks t) = py_join [NL, NL] (paragraphs_of t)"
proof -
  from paragraphs_nonempty [OF assms] obtain p ps where pp: "paragraphs_of t = p # ps"
    by (cases "paragraphs_of t") auto
  have np: "neat p" and nps: "\<forall>q \<in> set ps. neat q"
    using paragraphs_neat [of _ t] by (auto simp: pp)
  obtain chunks' cur' icb' where
    r: "paragraph_loop ps ([], p, toggle_code_block False p) = (chunks', cur', icb')"
    by (cases "paragraph_loop ps ([], p, toggle_code_block False p)") auto
  have first: "paragraph_loop (p # ps) ([], [], False) = (chunks', cur', icb')"
    using r by (simp add: paragraph_loop_step MIN_CHUNK_SIZE_def del: paragraph_loop.simps)
  from paragraph_loop_inv [OF nps np r]
  have n: "neat cur'" and j: "py_join [NL, NL] (chunks' @ [cur']) = py_join [NL, NL] (p # ps)"
    by auto
  have "paragraph_chunks t = chunks' @ [cur']"
    using n by (simp add: paragraph_chunks_def pp first strip_ends del: paragraph_loop.simps)
  then show ?thesis using j pp by simp
qed

lemma clean_text_neat: "clean_text t = [] \<or> neat (clean_text t)"
  using strip_stripped [of "filter (\<lambda>c. isprintable c \<or> c = NL) (collapse_runs SP (collapse_runs NL t))"]
  by (auto simp: clean_text_def)

lemma collapse_runs_Cons_notin: "c \<notin> set zs \<Longrightarrow> collapse_runs c (x # zs) = x # zs"
  by (cases zs) (auto simp: collapse_runs_id)

lemma collapse_runs_Cons_other: "x \<noteq> c \<Longrightarrow> collapse_runs c (x # zs) = x # collapse_runs c zs"
  by (cases zs) auto

lemma collapse_runs_append: "c \<notin> set xs \<Longrightarrow> collapse_runs c (xs @ ys) = xs @ collapse_runs c ys"
  by (induction xs) (auto simp: collapse_runs_Cons_other)

lemma re_split_append_no_nl: "NL \<notin> set xs \<Longrightarrow> re_split acc (xs @ ys) = re_split (acc @ xs) ys"
  by (induction xs arbitrary: acc) auto


lemma clean_two_paragraphs: "clean_text (A2000 @ [NL, SP, NL] @ B2000) = A2000 @ [NL, SP, NL] @ B2000"
proof -
  let ?t = "A2000 @ [NL, SP, NL] @ B2000"
  have 1: "collapse_runs NL ?t = ?t"
    by (simp add: collapse_runs_append collapse_runs_Cons_notin)
  have 2: "collapse_runs SP ?t = ?t"
    by (simp add: collapse_runs_append collapse_runs_Cons_notin collapse_runs_Cons_other)
  have 3: "filter (\<lambda>c. isprintable c \<or> c = NL) ?t = ?t"
    by (simp add: isprintable_def)
  have 4: "strip ?t = ?t"
    by (rule strip_ends) (simp add: hd_append isspace_def)
  show ?thesis by (simp only: clean_text_def Let_def 1 2 3 4)
qed

lemma paragraphs_two: "paragraphs_of (A2000 @ [NL, SP, NL] @ B2000) = [A2000, B2000]"
proof -
  have "sep_rest (SP # NL # B2000) = Some B2000"
    by (simp add: sep_rest_def isspace_def)
  then have "re_split [] (A2000 @ [NL, SP, NL] @ B2000) = [A2000, B2000]"
    by (simp add: re_split_append_no_nl re_split_no_nl)
  then show ?thesis
    by (simp add: paragraphs_of_def strip_no_space isspace_def)
qed

lemma py_in_replicate: "c \<noteq> CHR 0x60 \<Longrightarrow> \<not> py_in code_block_marker (replicate n c)"
  using py_in_marker_backtick [of "replicate n c"] by auto

lemma split_two_paragraphs:
  "split_text_into_chunks (A2000 @ [NL, SP, NL] @ B2000) = [A2000, B2000]"
proof -
  have "paragraph_chunks (A2000 @ [NL, SP, NL] @ B2000) = [A2000, B2000]"
    unfolding paragraph_chunks_def paragraphs_two
    by (simp add: py_in_replicate toggle_code_block_def
        MAX_CHUNK_SIZE_def MIN_CHUNK_SIZE_def strip_no_space isspace_def)
  then show ?thesis
    unfolding split_text_into_chunks_def clean_two_paragraphs
    by (simp add: MAX_CHUNK_SIZE_def)
qed

lemma split_A4000: "split_text_into_chunks (replicate 4000 (CHR ''A'')) = [replicate 4000 (CHR ''A'')]"
proof -
  let ?t = "replicate 4000 (CHR ''A'')"
  have c: "clean_text ?t = ?t"
    by (rule clean_text_id_plain) (simp add: isprintable_def isspace_def)
  have p: "paragraphs_of ?t = [?t]"
    by (simp add: paragraphs_of_def re_split_no_nl strip_no_space isspace_def)
  have m: "\<not> py_in code_block_marker ?t"
    using py_in_marker_backtick [of ?t] by auto
  have "paragraph_chunks ?t = [?t]"
    by (simp add: paragraph_chunks_def p m toggle_code_block_def MAX_CHUNK_SIZE_def MIN_CHUNK_SIZE_def strip_no_space isspace_def)
  then show ?thesis
    by (simp add: split_text_into_chunks_def c MAX_CHUNK_SIZE_def)
qed

lemma fallback_A4000:
  "fallback_chunks (replicate 4000 (CHR ''A'')) = [replicate 3000 (CHR ''A''), replicate 1600 (CHR ''A'')]"
  by (simp add: fallback_chunks_def fallback_starts_def fallback_window_def
      MAX_CHUNK_SIZE_def CHUNK_OVERLAP_def upt_rec)

text \<open>
  \<open>clean_text\<close> is idempotent on a text in which every character is printable or a newline,
  where the filter removes nothing; and the result of a second call is always a fixed point.
\<close>

lemma collapse_runs_hd: "\<exists>rest. collapse_runs c (x # xs) = x # rest"
  by (induction xs arbitrary: x) auto

lemma norun_collapse_runs: "norun c (collapse_runs c xs)"
proof (induction c xs rule: collapse_runs.induct)
  case (3 c x y ys)
  obtain rest where r: "collapse_runs c (y # ys) = y # rest"
    using collapse_runs_hd by blast
  show ?case
  proof (cases "x = c \<and> y = c")
    case True
    with 3 show ?thesis by simp
  next
    case False
    with 3 have "norun c (y # rest)" by (simp add: r)
    with False show ?thesis by (auto simp: r)
  qed
qed simp_all

lemma norun_fixpoint: "norun c xs \<Longrightarrow> collapse_runs c xs = xs"
  by (induction c xs rule: collapse_runs.induct) auto

lemma norun_collapse_other: "norun c xs \<Longrightarrow> norun c (collapse_runs d xs)"
proof (induction d xs rule: collapse_runs.induct)
  case (3 d x y ys)
  obtain rest where r: "collapse_runs d (y # ys) = y # rest"
    using collapse_runs_hd by blast
  from 3(3) have xy: "x \<noteq> c \<or> y \<noteq> c" and t: "norun c (y # ys)" by auto
  show ?case
  proof (cases "x = d \<and> y = d")
    case True
    with 3(1) t show ?thesis by simp
  next
    case False
    with 3(2) t have "norun c (y # rest)" by (simp add: r)
    with False xy show ?thesis by (auto simp: r)
  qed
qed simp_all

lemma norun_tl: "norun c (x # xs) \<Longrightarrow> norun c xs"
  by (cases xs) auto

lemma norun_suffix: "norun c (a @ m) \<Longrightarrow> norun c m"
  by (induction a) (auto dest: norun_tl)

lemma norun_prefix: "norun c (m @ b) \<Longrightarrow> norun c m"
  by (induction c m rule: norun.induct) auto

lemma strip_infix: "\<exists>a b. xs = a @ strip xs @ b"
proof -
  let ?m = "dropWhile isspace xs"
  have 1: "xs = takeWhile isspace xs @ ?m" by simp
  have "rev (takeWhile isspace (rev ?m) @ dropWhile isspace (rev ?m)) = rev (rev ?m)"
    by (simp only: takeWhile_dropWhile_id)
  then have 2: "?m = strip xs @ rev (takeWhile isspace (rev ?m))"
    by (simp only: rev_append rev_rev_ident strip_def)
  from 1 2 have "xs = takeWhile isspace xs @ strip xs @ rev (takeWhile isspace (rev ?m))"
    by metis
  then show ?thesis by blast
qed

lemma norun_strip: "norun c xs \<Longrightarrow> norun c (strip xs)"
proof -
  assume n: "norun c xs"
  obtain a b where e: "xs = a @ strip xs @ b" using strip_infix by blast
  from n e have "norun c (a @ strip xs @ b)" by simp
  then have "norun c (strip xs @ b)" by (rule norun_suffix)
  then show ?thesis by (rule norun_prefix)
qed

lemma set_strip: "set (strip xs) \<subseteq> set xs"
proof -
  obtain a b where e: "xs = a @ strip xs @ b" using strip_infix by blast
  have "set (strip xs) \<subseteq> set (a @ strip xs @ b)" by auto
  with e show ?thesis by simp
qed

lemma set_collapse_runs: "set (collapse_runs c xs) \<subseteq> set xs"
  by (induction c xs rule: collapse_runs.induct) auto

lemma strip_strip: "strip (strip xs) = strip xs"
proof (cases "strip xs = []")
  case True
  then show ?thesis by (simp add: strip_ends)
next
  case False
  from strip_stripped [OF False] show ?thesis by (simp add: strip_ends)
qed

lemma clean_text_idempotent_printable:
  assumes "\<forall>c \<in> set x. isprintable c \<or> c = NL"
  shows "clean_text (clean_text x) = clean_text x"
proof -
  let ?y = "collapse_runs SP (collapse_runs NL x)"
  have sy: "set ?y \<subseteq> set x"
    using set_collapse_runs [of SP "collapse_runs NL x"] set_collapse_runs [of NL x] by blast
  then have fy: "filter (\<lambda>c. isprintable c \<or> c = NL) ?y = ?y"
    using assms by (auto simp: filter_id_conv)
  then have r: "clean_text x = strip ?y" by (simp add: clean_text_def)
  have "norun NL ?y" by (rule norun_collapse_other) (rule norun_collapse_runs)
  then have 1: "collapse_runs NL (strip ?y) = strip ?y"
    by (intro norun_fixpoint norun_strip)
  have "norun SP ?y" by (rule norun_collapse_runs)
  then have 2: "collapse_runs SP (strip ?y) = strip ?y"
    by (intro norun_fixpoint norun_strip)
  have "set (strip ?y) \<subseteq> set x" using set_strip [of ?y] sy by blast
  then have 3: "filter (\<lambda>c. isprintable c \<or> c = NL) (strip ?y) = strip ?y"
    using assms by (auto simp: filter_id_conv)
  show ?thesis
    unfolding r by (simp add: clean_text_def 1 2 3 strip_strip)
qed

lemma clean_text_printable: "\<forall>c \<in> set (clean_text x). isprintable c \<or> c = NL"
  using set_strip [of "filter (\<lambda>c. isprintable c \<or> c = NL) (collapse_runs SP (collapse_runs NL x))"]
  by (auto simp: clean_text_def)

lemma clean_text_twice_fixpoint:
  "clean_text (clean_text (clean_text x)) = clean_text (clean_text x)"
  by (rule clean_text_idempotent_printable) (rule clean_text_printable)

section \<open>Properties of the embedder\<close>

lemma sum_squares_nonneg: "0 \<le> sum_list (map (\<lambda>x. x * x) (v::real list))"
  by (induction v) auto

lemma l2_norm_nonneg: "0 \<le> l2_norm v"
  by (simp add: l2_norm_def sum_squares_nonneg)

lemma accumulate_spec:
  "0 < D \<Longrightarrow> accumulate (int D) (enumerate k s) v = Inr (spec_add D k s v)"
proof (induction s arbitrary: k v)
  case Nil
  then show ?case by simp
next
  case (Cons c cs)
  have "nat (int k mod int D) = k mod D" by (simp add: nat_mod_distrib)
  with Cons show ?case by (simp add: Let_def)
qed

lemma spec_add_length: "length (spec_add D i s v) = length v"
  by (induction s arbitrary: i v) auto

lemma spec_embed_length: "length (spec_embed D s) = D"
  by (simp add: spec_embed_def Let_def spec_add_length)

lemma spec_embed_empty: "spec_embed D [] = replicate D 0"
  by (simp add: spec_embed_def Let_def)

lemma embed_text_spec:
  "0 < D \<Longrightarrow> alloc Array D = None \<Longrightarrow> embed_text alloc (int D) s = Inr (spec_embed D s)"
proof -
  assume D: "0 < D" and a: "alloc Array D = None"
  have n: "l2_norm v > 0 \<longleftrightarrow> sqrt (sum_list (map (\<lambda>x. x\<^sup>2) v)) \<noteq> 0" for v
    using l2_norm_nonneg [of v] by (auto simp: l2_norm_def power2_eq_square)
  show ?thesis
    using D a n
    by (simp add: embed_text_def np_zeros_def accumulate_spec spec_embed_def Let_def
        l2_norm_def power2_eq_square)
qed

text \<open>Every outcome of the embedding of one text.\<close>

lemma embed_text_cases:
  "embed_text alloc d s =
     (if d < 0 then Inl ValueError
      else (case alloc Array (nat d) of
              Some e \<Rightarrow> Inl e
            | None \<Rightarrow> if d = 0 \<and> s \<noteq> [] then Inl ZeroDivisionError
                      else Inr (spec_embed (nat d) s)))"
proof (cases "d < 0")
  case True
  then show ?thesis by (simp add: embed_text_def np_zeros_def)
next
  case nonneg: False
  show ?thesis
  proof (cases "alloc Array (nat d)")
    case (Some e)
    with nonneg show ?thesis by (simp add: embed_text_def np_zeros_def)
  next
    case None
    show ?thesis
    proof (cases "d = 0")
      case True
      with None show ?thesis
        by (cases s) (simp_all add: embed_text_def np_zeros_def l2_norm_def spec_embed_empty)
    next
      case False
      with nonneg have "0 < nat d" and "int (nat d) = d" by simp_all
      with None embed_text_spec [of "nat d" alloc s] nonneg False show ?thesis by simp
    qed
  qed
qed

lemma embeddings_loop_cases:
  "embeddings_loop alloc d texts acc =
     (if texts = [] then Inr acc
      else if d < 0 then Inl ValueError
      else (case alloc Array (nat d) of
              Some e \<Rightarrow> Inl e
            | None \<Rightarrow> if d = 0 \<and> list_ex (\<lambda>t. t \<noteq> []) texts then Inl ZeroDivisionError
                      else Inr (acc @ map (spec_embed (nat d)) texts)))"
proof (induction texts arbitrary: acc)
  case Nil
  show ?case by simp
next
  case (Cons t texts)
  show ?case
    unfolding embeddings_loop.simps embed_text_cases Cons
    by (simp split: option.splits)
qed

lemma embeddings_loop_spec:
  "0 < D \<Longrightarrow> alloc Array D = None \<Longrightarrow>
     embeddings_loop alloc (int D) texts acc = Inr (acc @ map (spec_embed D) texts)"
  by (simp add: embeddings_loop_cases)

text \<open>
  \<open>get_embeddings\<close> with the module's dimension: the external backend is the simple one, so
  the flag makes no difference.
\<close>

lemma get_embeddings_simple:
  "get_embeddings alloc cfg texts None = get_simple_embeddings alloc texts (EMBEDDING_DIM cfg)"
  by (simp add: get_embeddings_def get_external_embeddings_def Let_def split: sum.splits)

lemma get_embeddings_cases:
  "get_embeddings alloc cfg texts None =
     (if texts = [] then Inr []
      else if EMBEDDING_DIM cfg < 0 then Inl ValueError
      else (case alloc Array (nat (EMBEDDING_DIM cfg)) of
              Some e \<Rightarrow> Inl e
            | None \<Rightarrow> if EMBEDDING_DIM cfg = 0 \<and> list_ex (\<lambda>t. t \<noteq> []) texts
                      then Inl ZeroDivisionError
                      else Inr (map (spec_embed (nat (EMBEDDING_DIM cfg))) texts)))"
  unfolding get_embeddings_simple get_simple_embeddings_def embeddings_loop_cases
  by (auto split: option.splits)

section \<open>Properties of \<open>save_pdf_to_db\<close>\<close>

text \<open>
  The character-based fallback of \<open>split_text_into_chunks\<close> is never taken: a cleaned text
  longer than \<open>MAX_CHUNK_SIZE\<close> starts with a character that is not whitespace, so there is
  a paragraph, and the paragraph loop leaves a non-empty buffer.
\<close>

lemma fallback_not_taken:
  assumes "MAX_CHUNK_SIZE < length (clean_text T)"
  shows "paragraph_chunks (clean_text T) \<noteq> []"
proof -
  have ne: "clean_text T \<noteq> []" using assms by auto
  then have "\<not> isspace (hd (clean_text T))" using clean_text_neat [of T] by simp
  from paragraph_chunks_join [OF ne this] show ?thesis by simp
qed







lemma l2_norm_single: "l2_norm [x] = \<bar>x\<bar>" by (simp add: l2_norm_def)





section \<open>Properties of the scoring loops and the ranking\<close>



text \<open>
  The sort on a linear order returns a rearrangement of the list that is in descending order
  of the key and keeps the elements of any one key in their order. There is one such list.
\<close>

lemma stable_descending_mset: "mset (stable_descending key xs) = mset xs"
  by (simp add: stable_descending_def)

lemma stable_descending_sorted:
  "sorted_wrt (\<lambda>a b. key b \<le> key a) (stable_descending key xs)"
proof -
  have "sorted (map key (sort_key key (rev xs)))" by (rule sorted_sort_key)
  then show ?thesis by (simp add: stable_descending_def sorted_map sorted_wrt_rev)
qed

lemma stable_descending_stable:
  "filter (\<lambda>x. key x = k) (stable_descending key xs) = filter (\<lambda>x. key x = k) xs"
proof -
  have "filter (\<lambda>x. key x = k) (stable_descending key xs)
          = rev (filter (\<lambda>x. key x = k) (sort_key key (rev xs)))"
    by (simp add: stable_descending_def rev_filter)
  also have "\<dots> = rev (filter (\<lambda>x. key x = k) (rev xs))"
    by (simp only: sort_key_stable)
  also have "\<dots> = filter (\<lambda>x. key x = k) xs"
    by (simp add: rev_filter)
  finally show ?thesis .
qed

lemma stable_descending_short: "length xs < 2 \<Longrightarrow> stable_descending key xs = xs"
proof (cases xs)
  case Nil
  then show ?thesis by (simp add: stable_descending_def)
next
  case (Cons a as)
  assume "length xs < 2"
  with Cons have "as = []" by simp
  with Cons show ?thesis by (simp add: stable_descending_def)
qed

lemma sort_key_Some: "sort_key (\<lambda>x. Some (key x)) xs = sort_key key xs"
proof (rule properties_for_sort_key)
  show "mset (sort_key key xs) = mset xs" by simp
  show "sorted (map (\<lambda>x. Some (key x)) (sort_key key xs))"
    using sorted_sort_key [of key xs] by (simp add: sorted_map)
  fix k
  show "filter (\<lambda>x. Some (key k) = Some (key x)) (sort_key key xs)
          = filter (\<lambda>x. Some (key k) = Some (key x)) xs"
    using sort_key_stable [of key "key k" xs] by (simp add: eq_commute)
qed

lemma stable_descending_Some:
  "stable_descending (\<lambda>x. Some (key x)) xs = stable_descending key xs"
  by (simp add: stable_descending_def sort_key_Some)

text \<open>On scores that are numbers the sort raises nothing and is the stable one.\<close>

lemma sort_reverse_numbers:
  assumes "list_all (\<lambda>x. is_number (key x)) xs"
  shows "sort_reverse ar key xs = Inr (stable_descending (\<lambda>x. number_of (key x)) xs)"
proof -
  have "\<not> list_ex (\<lambda>x. key x = ArrayScore) xs"
    using assms by (auto simp: list_all_iff list_ex_iff is_number_def)
  with assms show ?thesis by (simp add: sort_reverse_def stable_descending_short)
qed

lemma score_loop_acc: "score_loop ar q chunks acc = acc @ score_loop ar q chunks []"
proof (induction chunks arbitrary: acc)
  case Nil
  then show ?case by simp
next
  case (Cons c cs)
  show ?case
  proof (cases "try_score ar q c")
    case (Inl e)
    then show ?thesis using Cons [of acc] by simp
  next
    case (Inr s)
    then show ?thesis using Cons [of "acc @ [(c, s)]"] Cons [of "[(c, s)]"] by simp
  qed
qed

text \<open>The scored chunks are the chunks whose scoring raised nothing, in their order.\<close>

lemma score_loop_map_filter:
  "score_loop ar q chunks []
     = List.map_filter (\<lambda>c. case try_score ar q c of Inl e \<Rightarrow> None | Inr s \<Rightarrow> Some (c, s)) chunks"
proof (induction chunks)
  case Nil
  then show ?case by (simp add: List.map_filter_simps)
next
  case (Cons c cs)
  then show ?case
    using score_loop_acc [of ar q cs "[(c, projr (try_score ar q c))]"]
    by (cases "try_score ar q c") (auto simp: List.map_filter_simps)
qed

lemma score_loop_fst:
  "map fst (score_loop ar q chunks []) = filter (\<lambda>c. \<not> isl (try_score ar q c)) chunks"
proof (induction chunks)
  case Nil
  then show ?case by simp
next
  case (Cons c cs)
  then show ?case
    using score_loop_acc [of ar q cs "[(c, projr (try_score ar q c))]"]
    by (cases "try_score ar q c") auto
qed

lemma search_loop_acc: "search_loop ar db q chunks acc = acc @ search_loop ar db q chunks []"
proof (induction chunks arbitrary: acc)
  case Nil
  then show ?case by simp
next
  case (Cons c cs)
  show ?case
    using Cons [of acc] Cons [of "acc @ [make_result db c v]" for v] Cons [of "[make_result db c v]" for v]
    by (simp split: sum.splits score.splits pyfloat.splits)
qed

text \<open>
  The results kept by \<open>/search\<close> are those of the chunks whose score is a number above the
  threshold, in the order of the chunks.
\<close>

lemma search_loop_map_filter:
  "search_loop ar db q chunks []
     = List.map_filter
         (\<lambda>c. case try_score ar q c of
                Inr (Scalar (Num v)) \<Rightarrow> if ar_threshold ar < v then Some (make_result db c v) else None
              | other \<Rightarrow> None)
         chunks"
proof (induction chunks)
  case Nil
  then show ?case by (simp add: List.map_filter_simps)
next
  case (Cons c cs)
  then show ?case
    using search_loop_acc [of ar db q cs "[make_result db c v]" for v]
    by (simp add: List.map_filter_simps split: sum.splits score.splits pyfloat.splits)
qed

text \<open>A chunk whose stored embedding does not parse leaves no trace in the scores.\<close>

lemma try_score_malformed: "isl (json_loads (embedding c)) \<Longrightarrow> isl (try_score ar q c)"
  by (auto simp: try_score_def split: sum.splits)

lemma score_loop_malformed:
  "score_loop ar q chunks []
     = score_loop ar q (filter (\<lambda>c. \<not> isl (json_loads (embedding c))) chunks) []"
proof (induction chunks)
  case Nil
  then show ?case by simp
next
  case (Cons c cs)
  show ?case
  proof (cases "isl (json_loads (embedding c))")
    case True
    from try_score_malformed [OF this, of ar q] obtain e where "try_score ar q c = Inl e"
      by (cases "try_score ar q c") auto
    with True Cons show ?thesis by simp
  next
    case False
    then show ?thesis
      using Cons score_loop_acc [of ar q cs "[(c, projr (try_score ar q c))]"]
        score_loop_acc [of ar q "filter (\<lambda>c. \<not> isl (json_loads (embedding c))) cs"
          "[(c, projr (try_score ar q c))]"]
      by (cases "try_score ar q c") auto
  qed
qed

lemma score_loop_all_malformed:
  "list_all (\<lambda>c. isl (json_loads (embedding c))) chunks \<Longrightarrow> score_loop ar q chunks [] = []"
  by (induction chunks) (auto simp: try_score_def split: sum.splits)

text \<open>
  \<open>answer_question\<close> reads the database through its chunks only, and the chunks through
  their scores.
\<close>

lemma answer_question_scores:
  assumes "(pdf_chunks db = []) = (pdf_chunks db2 = [])"
    and "\<And>q. score_loop ar q (pdf_chunks db) [] = score_loop ar q (pdf_chunks db2) []"
  shows "answer_question alloc ar cfg db question = answer_question alloc ar cfg db2 question"
  using assms
  by (simp add: answer_question_def top_chunks_of_def Let_def split: sum.splits list.splits)

text \<open>The embedding of the question, in one case analysis.\<close>

lemma question_embedding_cases:
  "get_embeddings alloc cfg [question] None =
     (if EMBEDDING_DIM cfg < 0 then Inl ValueError
      else (case alloc Array (nat (EMBEDDING_DIM cfg)) of
              Some e \<Rightarrow> Inl e
            | None \<Rightarrow> if EMBEDDING_DIM cfg = 0 \<and> question \<noteq> [] then Inl ZeroDivisionError
                      else Inr [spec_embed (nat (EMBEDDING_DIM cfg)) question]))"
  by (simp add: get_embeddings_cases split: option.splits)

text \<open>The examples: questions and stored vectors of dimension 1.\<close>

lemma embed_what: "get_embeddings unlimited cfg_dim1 [''what is x''] None = Inr [[1]]"
  by (simp add: cfg_dim1_def get_embeddings_def get_simple_embeddings_def embed_text_def
      np_zeros_def unlimited_def l2_norm_single Let_def)

lemma embed_abc: "get_embeddings unlimited cfg_dim1 [''abc''] None = Inr [[1]]"
  by (simp add: cfg_dim1_def get_embeddings_def get_simple_embeddings_def embed_text_def
      np_zeros_def unlimited_def l2_norm_single Let_def)

lemma exact_score:
  "try_score exact_arith [Num 1] (chunk_row s i (JsonArray [Num v]))
     = Inr (Scalar (Num (if v = 0 then 0 else v / \<bar>v\<bar>)))"
  by (simp add: try_score_def chunk_row_def cosine_similarity_def exact_arith_def
      l2_norm_single Let_def)

lemma exact_score_nan:
  "try_score exact_arith [Num 1] (chunk_row s i (JsonArray [NaN])) = Inr (Scalar NaN)"
  by (simp add: try_score_def chunk_row_def cosine_similarity_def exact_arith_def
      l2_norm_single Let_def)

lemma exact_score_malformed:
  "try_score exact_arith [Num 1] (chunk_row s i (Malformed m)) = Inl JSONDecodeError"
  by (simp add: try_score_def chunk_row_def)

text \<open>The examples: the fields of the exact arithmetic, and the decimal numerals.\<close>

lemma exact_fields:
  "ar_of_real exact_arith x = Num x"
  "ar_threshold exact_arith = 3 / 10"
  "ar_zero exact_arith = 0"
  "ar_finite exact_arith y = True"
  "ar_int100 exact_arith y = Inr (if 0 \<le> y then \<lfloor>y * 100\<rfloor> else \<lceil>y * 100\<rceil>)"
  by (simp_all add: exact_arith_def)

lemma str_nat_1: "str_nat (Suc 0) = ''1''"
  by (subst str_nat.simps) code_simp

lemma str_int_0: "str_int 0 = ''0''"
  unfolding str_int_def by (subst str_nat.simps) code_simp

lemma str_nat_100: "str_nat 100 = ''100''"
  by (subst str_nat.simps, subst str_nat.simps, subst str_nat.simps) code_simp

lemma str_int_100: "str_int 100 = ''100''"
  unfolding str_int_def using str_nat_100 by simp

lemma score_tie:
  "score_loop exact_arith [Num 1] (pdf_chunks db_tie) []
     = [(chunk_row ''w'' 0 (JsonArray [Num (- 1)]), Scalar (Num (- 1))),
        (chunk_row ''x'' 1 (JsonArray [Num 1]), Scalar (Num 1)),
        (chunk_row ''z'' 2 (JsonArray [Num 0]), Scalar (Num 0)),
        (chunk_row ''y'' 3 (JsonArray [Num 2]), Scalar (Num 1))]"
  by (simp add: db_tie_def db_with_def exact_score)

lemma rank_tie:
  "stable_descending (\<lambda>x. number_of (snd x))
     [(chunk_row ''w'' 0 (JsonArray [Num (- 1)]), Scalar (Num (- 1))),
      (chunk_row ''x'' 1 (JsonArray [Num 1]), Scalar (Num 1)),
      (chunk_row ''z'' 2 (JsonArray [Num 0]), Scalar (Num 0)),
      (chunk_row ''y'' 3 (JsonArray [Num 2]), Scalar (Num (1::real)))]
   = [(chunk_row ''x'' 1 (JsonArray [Num 1]), Scalar (Num 1)),
      (chunk_row ''y'' 3 (JsonArray [Num 2]), Scalar (Num 1)),
      (chunk_row ''z'' 2 (JsonArray [Num 0]), Scalar (Num 0)),
      (chunk_row ''w'' 0 (JsonArray [Num (- 1)]), Scalar (Num (- 1)))]"
  by (simp add: stable_descending_def)

lemma answer_tail:
  "generate_answer exact_arith question ((chunk_row s i e, Scalar (Num 1)) # rest)
     = Inr (''Based on the PDF content, I found this information:'' @ [NL, NL] @ s
            @ [NL, NL] @ ''Source: PDF #1'' @ [NL] @ ''Confidence: 100%'')"
  by (simp add: generate_answer_def confidence_of_def exact_fields chunk_row_def Let_def
      str_nat_1 str_int_100 del: str_nat.simps)

lemma answer_tail_zero:
  "generate_answer exact_arith question ((chunk_row s i e, Scalar (Num 0)) # rest)
     = Inr (''I couldn'' @ [CHR 0x27]
            @ ''t find a definitive answer, but this might be relevant:'' @ [NL, NL] @ s
            @ [NL, NL] @ ''Source: PDF #1'' @ [NL] @ ''Confidence: 0%'')"
  by (simp add: generate_answer_def confidence_of_def exact_fields chunk_row_def Let_def
      str_nat_1 str_int_0 del: str_nat.simps)

lemma search_loop_tie:
  "search_loop exact_arith db_tie [Num 1] (pdf_chunks db_tie) []
   = [\<lparr>result_pdf_id = 1, pdf_name = ''a.pdf'', result_chunk_index = 1,
        result_chunk_text = ''x'', score = 1\<rparr>,
      \<lparr>result_pdf_id = 1, pdf_name = ''a.pdf'', result_chunk_index = 3,
        result_chunk_text = ''y'', score = 1\<rparr>]"
proof -
  have m: "make_result db_tie (chunk_row s i e) v
             = \<lparr>result_pdf_id = 1, pdf_name = ''a.pdf'', result_chunk_index = i,
                result_chunk_text = (if length s > 200 then take 200 s @ ''...'' else s),
                score = v\<rparr>" for s i e v
    by (simp add: make_result_def chunk_row_def db_tie_def db_with_def)
  have c: "pdf_chunks db_tie
             = [chunk_row ''w'' 0 (JsonArray [Num (- 1)]), chunk_row ''x'' 1 (JsonArray [Num 1]),
                chunk_row ''z'' 2 (JsonArray [Num 0]), chunk_row ''y'' 3 (JsonArray [Num 2])]"
    by (simp add: db_tie_def db_with_def)
  show ?thesis
    unfolding c by (simp add: exact_score exact_fields m)
qed

lemma search_tie:
  "stable_descending score
     (search_loop exact_arith db_tie [Num 1] (pdf_chunks db_tie) [])
   = [\<lparr>result_pdf_id = 1, pdf_name = ''a.pdf'', result_chunk_index = 1,
        result_chunk_text = ''x'', score = 1\<rparr>,
      \<lparr>result_pdf_id = 1, pdf_name = ''a.pdf'', result_chunk_index = 3,
        result_chunk_text = ''y'', score = 1\<rparr>]"
  unfolding search_loop_tie by (simp add: stable_descending_def)

lemma score_nan:
  "score_loop exact_arith [Num 1] (pdf_chunks db_nan) []
     = [(chunk_row ''low'' 0 (JsonArray [Num 0]), Scalar (Num 0)),
        (chunk_row ''nan'' 1 (JsonArray [NaN]), Scalar NaN),
        (chunk_row ''high'' 2 (JsonArray [Num 1]), Scalar (Num 1))]"
  by (simp add: db_nan_def db_with_def exact_score exact_score_nan)

lemma rank_nan:
  "top_chunks_of exact_arith [Num 1] (pdf_chunks db_nan)
     = Inr [(chunk_row ''low'' 0 (JsonArray [Num 0]), Scalar (Num 0)),
            (chunk_row ''nan'' 1 (JsonArray [NaN]), Scalar NaN),
            (chunk_row ''high'' 2 (JsonArray [Num 1]), Scalar (Num 1))]"
  unfolding top_chunks_of_def score_nan
  by (simp add: sort_reverse_def is_number_def TOP_K_CHUNKS_def)

lemma answer_dim1:
  "pdf_chunks db \<noteq> [] \<Longrightarrow>
   answer_question unlimited exact_arith cfg_dim1 db ''what is x''
     = (case top_chunks_of exact_arith [Num 1] (pdf_chunks db) of
          Inl e \<Rightarrow> Inl e
        | Inr top_chunks \<Rightarrow>
            if top_chunks = [] then Inr not_found_message
            else generate_answer exact_arith ''what is x'' top_chunks)"
  by (simp add: answer_question_def embed_what exact_fields Let_def)

lemma answer_nan:
  "answer_question unlimited exact_arith cfg_dim1 db_nan ''what is x''
     = Inr (''I couldn'' @ [CHR 0x27]
            @ ''t find a definitive answer, but this might be relevant:'' @ [NL, NL] @ ''low''
            @ [NL, NL] @ ''Source: PDF #1'' @ [NL] @ ''Confidence: 0%'')"
proof -
  have n: "pdf_chunks db_nan \<noteq> []" by (simp add: db_nan_def db_with_def)
  show ?thesis
    unfolding answer_dim1 [OF n] rank_nan by (simp add: answer_tail_zero)
qed

lemma rank_mixed:
  "top_chunks_of exact_arith [Num 1] (pdf_chunks db_mixed)
     = Inr [(chunk_row ''x'' 1 (JsonArray [Num 1]), Scalar (Num 1))]"
proof -
  have s: "score_loop exact_arith [Num 1] (pdf_chunks db_mixed) []
             = [(chunk_row ''x'' 1 (JsonArray [Num 1]), Scalar (Num 1))]"
    by (simp add: db_mixed_def db_with_def exact_score exact_score_malformed)
  show ?thesis
    unfolding top_chunks_of_def s by (simp add: sort_reverse_def TOP_K_CHUNKS_def)
qed

lemma answer_mixed:
  "answer_question unlimited exact_arith cfg_dim1 db_mixed ''what is x''
     = Inr (''Based on the PDF content, I found this information:'' @ [NL, NL] @ ''x''
            @ [NL, NL] @ ''Source: PDF #1'' @ [NL] @ ''Confidence: 100%'')"
proof -
  have n: "pdf_chunks db_mixed \<noteq> []" by (simp add: db_mixed_def db_with_def)
  show ?thesis
    unfolding answer_dim1 [OF n] rank_mixed by (simp add: answer_tail)
qed

section \<open>Properties of the keyword retrieval and of the configuration gate\<close>










lemma unconfigured_gate:
  "\<not> llm_available env \<Longrightarrow> \<not> (is_followup \<and> py_truthy previous_answer) \<Longrightarrow>
   answer_question_with_ai env remote decorate db question pdf_id is_followup previous_answer = NotAvailable"
  by (auto simp: answer_question_with_ai_def)

section \<open>The statements of the specification\<close>

subsection \<open>The normalizer is not idempotent\<close>

text \<open>
  C5. The claim is that \<open>clean_text (clean_text x) = clean_text x\<close> for every string.
  The filter of non-printable characters runs after the two collapsing steps, so a tab
  between two newlines leaves a run of two newlines in the result, which a second call
  collapses: on \<open>"a\n\t\nb"\<close> the first call returns \<open>"a\n\nb"\<close> and the second \<open>"a\nb"\<close>.
\<close>

theorem clean_text_not_idempotent:
  "clean_text [CHR ''a'', NL, TAB, NL, CHR ''b''] = [CHR ''a'', NL, NL, CHR ''b'']
   \<and> clean_text (clean_text [CHR ''a'', NL, TAB, NL, CHR ''b'']) = [CHR ''a'', NL, CHR ''b'']
   \<and> clean_text (clean_text [CHR ''a'', NL, TAB, NL, CHR ''b''])
       \<noteq> clean_text [CHR ''a'', NL, TAB, NL, CHR ''b'']"
  by (simp add: clean_text_def strip_def isspace_def isprintable_def)

subsection \<open>Texts of at most \<open>MAX_CHUNK_SIZE\<close> characters\<close>

text \<open>
  C4, as amended. A text of at most \<open>MAX_CHUNK_SIZE\<close> characters gives exactly one chunk,
  and that chunk is the cleaned text \<open>clean_text T\<close> (the function cleans its argument
  before anything else); it is \<open>T\<close> itself when cleaning leaves \<open>T\<close> unchanged.
\<close>

theorem split_small_text:
  "length T \<le> MAX_CHUNK_SIZE \<Longrightarrow> split_text_into_chunks T = [clean_text T]"
  using clean_text_length [of T] by (simp add: split_text_into_chunks_def Let_def)

text \<open>The theorem at \<open>"hello  world "\<close>: the one chunk is \<open>"hello world"\<close>.\<close>

theorem split_small_text_witness:
  "length ''hello  world '' \<le> MAX_CHUNK_SIZE
   \<and> split_text_into_chunks ''hello  world '' = [''hello world'']"
  using split_small_text [of "''hello  world ''"]
  by (simp add: MAX_CHUNK_SIZE_def clean_text_def strip_def isspace_def isprintable_def)

text \<open>
  C4 as stated (the chunk equals the input) fails at \<open>"a  b"\<close>, three characters and a
  double space: the chunk is \<open>"a b"\<close>.
\<close>

theorem split_small_text_counterexample:
  "length ''a  b'' \<le> MAX_CHUNK_SIZE
   \<and> split_text_into_chunks ''a  b'' = [''a b'']
   \<and> split_text_into_chunks ''a  b'' \<noteq> [''a  b'']"
  by (simp add: split_text_into_chunks_def clean_text_def strip_def isspace_def isprintable_def
      MAX_CHUNK_SIZE_def)

subsection \<open>One paragraph of 4000 characters\<close>

text \<open>
  C2, as amended. For the character \<open>A\<close> repeated 4000 times the paragraph loop sees one
  paragraph, puts it into \<open>current_chunk\<close> (the flush needs \<open>MIN_CHUNK_SIZE\<close> characters
  already buffered) and appends it after the loop: the result is one chunk holding all 4000
  characters, and the character-based fallback is not taken.
\<close>

theorem split_A4000_single_chunk:
  "split_text_into_chunks A4000 = [A4000]"
  by (rule split_A4000)

text \<open>
  C2 as stated fails: the result is not the list of fallback windows, it has one element and
  that element is longer than \<open>MAX_CHUNK_SIZE\<close>. The fallback loop itself, run on this text,
  would give the windows \<open>text[0:3000]\<close> and \<open>text[2400:4000]\<close>, which share 600 characters.
\<close>

theorem split_A4000_counterexample:
  "split_text_into_chunks A4000 \<noteq> fallback_chunks A4000
   \<and> length (split_text_into_chunks A4000) = 1
   \<and> MAX_CHUNK_SIZE < length (hd (split_text_into_chunks A4000))
   \<and> fallback_chunks A4000 = [replicate 3000 (CHR ''A''), replicate 1600 (CHR ''A'')]"
  by (simp add: split_A4000 fallback_A4000 MAX_CHUNK_SIZE_def)

subsection \<open>What the paragraph path keeps\<close>

text \<open>
  C3, as amended. When the cleaned text is longer than \<open>MAX_CHUNK_SIZE\<close>, the chunks are the
  stripped, non-empty paragraphs of the cleaned text, grouped in order and joined by a blank
  line: joining the chunks by a blank line gives the paragraphs joined by a blank line, and
  the concatenated chunks hold exactly the non-whitespace characters of the cleaned text, in
  order. What is lost is whitespace only (the separators matched by \<open>\n\s*\n\<close> and the
  whitespace stripped around a paragraph), and what is kept is \<open>clean_text T\<close>, not \<open>T\<close>.
\<close>

theorem split_primary_path:
  assumes "length (clean_text T) > MAX_CHUNK_SIZE"
  shows "py_join [NL, NL] (split_text_into_chunks T) = py_join [NL, NL] (paragraphs_of (clean_text T))
       \<and> filter (\<lambda>c. \<not> isspace c) (concat (split_text_into_chunks T))
           = filter (\<lambda>c. \<not> isspace c) (clean_text T)"
proof -
  let ?t = "clean_text T"
  have ne: "?t \<noteq> []" using assms by auto
  then have h: "\<not> isspace (hd ?t)" using clean_text_neat [of T] by simp
  from paragraph_chunks_join [OF ne h]
  have c: "paragraph_chunks ?t \<noteq> []"
    and j: "py_join [NL, NL] (paragraph_chunks ?t) = py_join [NL, NL] (paragraphs_of ?t)"
    by auto
  have s: "split_text_into_chunks T = paragraph_chunks ?t"
    using assms c by (simp add: split_text_into_chunks_def Let_def)
  have sp: "\<forall>c \<in> set [NL, NL]. isspace c" by (simp add: isspace_NL)
  have "nsp (concat (paragraph_chunks ?t)) = nsp (py_join [NL, NL] (paragraph_chunks ?t))"
    using nsp_py_join [OF sp] by simp
  also have "\<dots> = nsp (concat (paragraphs_of ?t))"
    using nsp_py_join [OF sp] j by simp
  also have "\<dots> = nsp ?t" by (rule nsp_paragraphs)
  finally show ?thesis using s j by simp
qed

text \<open>
  The theorem at two paragraphs of 2000 characters separated by newline, space, newline.
\<close>

theorem split_primary_path_witness:
  "MAX_CHUNK_SIZE < length (clean_text (A2000 @ [NL, SP, NL] @ B2000))
   \<and> filter (\<lambda>c. \<not> isspace c) (concat (split_text_into_chunks (A2000 @ [NL, SP, NL] @ B2000)))
       = A2000 @ B2000"
proof -
  have h: "MAX_CHUNK_SIZE < length (clean_text (A2000 @ [NL, SP, NL] @ B2000))"
    unfolding clean_two_paragraphs by (simp add: MAX_CHUNK_SIZE_def)
  from split_primary_path [OF h] h show ?thesis
    unfolding clean_two_paragraphs by (simp add: isspace_def)
qed

text \<open>
  C3 as stated fails at that text, which cleaning leaves unchanged: it has 4003 characters,
  the two chunks hold 4000, and neither their concatenation nor their join by a blank line
  gives the text back.
\<close>

theorem split_primary_path_counterexample:
  "clean_text (A2000 @ [NL, SP, NL] @ B2000) = A2000 @ [NL, SP, NL] @ B2000
   \<and> split_text_into_chunks (A2000 @ [NL, SP, NL] @ B2000) = [A2000, B2000]
   \<and> concat (split_text_into_chunks (A2000 @ [NL, SP, NL] @ B2000)) \<noteq> A2000 @ [NL, SP, NL] @ B2000
   \<and> py_join [NL, NL] (split_text_into_chunks (A2000 @ [NL, SP, NL] @ B2000))
       \<noteq> A2000 @ [NL, SP, NL] @ B2000"
  unfolding split_two_paragraphs clean_two_paragraphs by simp

subsection \<open>The embedder computes the specified vectors\<close>

text \<open>
  C6. For a positive dimension \<open>D\<close>, \<open>get_simple_embeddings\<close> returns, for the texts in input
  order, the vectors that the specification describes: one vector per text, each of length
  \<open>D\<close>, built from zeros by adding \<open>ord(char)/1000\<close> at position \<open>i mod D\<close> and divided by its
  Euclidean norm unless that norm is zero; the empty string gives the zero vector. The result
  is a function of the texts and the dimension alone, so equal texts give equal vectors. The
  one other outcome is the exception of NumPy on a machine that cannot allocate an array of
  \<open>D\<close> entries, raised at the first text.
\<close>

theorem get_simple_embeddings_spec:
  assumes "0 < D"
  shows "get_simple_embeddings alloc texts (int D)
           = (case alloc Array D of
                None \<Rightarrow> Inr (spec_embed_batch D texts)
              | Some e \<Rightarrow> if texts = [] then Inr [] else Inl e)
       \<and> length (spec_embed_batch D texts) = length texts
       \<and> map length (spec_embed_batch D texts) = replicate (length texts) D
       \<and> spec_embed D [] = replicate D 0"
  using assms
  by (simp add: get_simple_embeddings_def embeddings_loop_cases spec_embed_batch_def
      spec_embed_empty spec_embed_length map_replicate_const comp_def split: option.splits)

text \<open>The theorem at dimension 1 and the texts \<open>"a"\<close> and \<open>""\<close>.\<close>

theorem get_simple_embeddings_spec_witness:
  "(0::nat) < 1 \<and> get_simple_embeddings unlimited [''a'', ''''] 1 = Inr [[1], [0]]"
  using get_simple_embeddings_spec [of 1 unlimited "[''a'', '''']"]
  by (simp add: spec_embed_batch_def spec_embed_def unlimited_def)

subsection \<open>The dimension of the persisted embeddings\<close>




subsection \<open>The ranking is descending and stable when the scores are numbers\<close>

text \<open>
  C8, as amended. When every score is a number, \<open>answer_question\<close> answers from the first
  \<open>TOP_K_CHUNKS\<close> entries of the stable descending arrangement of the scored chunks, and the
  scored chunks are the chunks whose scoring raised nothing, in the order of the collection.
  \<open>/search\<close> keeps the chunks whose score is a number above the threshold, in the order of
  the collection, and returns the first ten entries of the stable descending arrangement of
  what it kept, with the number of kept results, unless the response cannot be encoded. The
  stable descending arrangement of a list is a rearrangement of it, in descending order of
  the key, in which the elements of any one key stand in their order in the list.
\<close>

theorem ranking_stable:
  "(get_embeddings alloc cfg [question] None = Inr (qe # others)
      \<and> pdf_chunks db \<noteq> []
      \<and> list_all (\<lambda>x. is_number (snd x))
           (score_loop ar (map (ar_of_real ar) qe) (pdf_chunks db) [])
    \<longrightarrow> answer_question alloc ar cfg db question
          = (let top_chunks =
                   take TOP_K_CHUNKS
                     (stable_descending (\<lambda>x. number_of (snd x))
                        (score_loop ar (map (ar_of_real ar) qe) (pdf_chunks db) []))
             in if top_chunks = [] then Inr not_found_message
                else generate_answer ar question top_chunks))
   \<and> (list_all (\<lambda>x. is_number (snd x)) (score_loop ar q chunks [])
       \<longrightarrow> top_chunks_of ar q chunks
             = Inr (take TOP_K_CHUNKS
                      (stable_descending (\<lambda>x. number_of (snd x)) (score_loop ar q chunks []))))
   \<and> score_loop ar q chunks []
       = List.map_filter
           (\<lambda>c. case try_score ar q c of Inl e \<Rightarrow> None | Inr s \<Rightarrow> Some (c, s)) chunks
   \<and> (3 \<le> length query
        \<and> get_embeddings alloc cfg [query] None = Inr (qe # others)
        \<and> pdf_chunks db \<noteq> []
      \<longrightarrow> search_pdfs alloc ar cfg db query
            = (let results =
                     stable_descending score
                       (search_loop ar db (map (ar_of_real ar) qe) (pdf_chunks db) []);
                   top_results = take 10 results
               in if list_all (\<lambda>r. ar_finite ar (score r)) top_results
                  then SearchResults top_results (length results)
                  else ServerError ValueError))
   \<and> search_loop ar db q chunks []
       = List.map_filter
           (\<lambda>c. case try_score ar q c of
                  Inr (Scalar (Num v)) \<Rightarrow>
                    if ar_threshold ar < v then Some (make_result db c v) else None
                | other \<Rightarrow> None)
           chunks
   \<and> mset (stable_descending key xs) = mset xs
   \<and> sorted_wrt (\<lambda>a b. key b \<le> key a) (stable_descending key xs)
   \<and> filter (\<lambda>x. key x = k) (stable_descending key xs) = filter (\<lambda>x. key x = k) xs"
proof (intro conjI impI)
  assume a: "get_embeddings alloc cfg [question] None = Inr (qe # others)
      \<and> pdf_chunks db \<noteq> []
      \<and> list_all (\<lambda>x. is_number (snd x))
           (score_loop ar (map (ar_of_real ar) qe) (pdf_chunks db) [])"
  then show "answer_question alloc ar cfg db question
          = (let top_chunks =
                   take TOP_K_CHUNKS
                     (stable_descending (\<lambda>x. number_of (snd x))
                        (score_loop ar (map (ar_of_real ar) qe) (pdf_chunks db) []))
             in if top_chunks = [] then Inr not_found_message
                else generate_answer ar question top_chunks)"
    by (simp add: answer_question_def top_chunks_of_def sort_reverse_numbers Let_def)
next
  assume "list_all (\<lambda>x. is_number (snd x)) (score_loop ar q chunks [])"
  then show "top_chunks_of ar q chunks
             = Inr (take TOP_K_CHUNKS
                      (stable_descending (\<lambda>x. number_of (snd x)) (score_loop ar q chunks [])))"
    by (simp add: top_chunks_of_def sort_reverse_numbers)
next
  show "score_loop ar q chunks []
       = List.map_filter
           (\<lambda>c. case try_score ar q c of Inl e \<Rightarrow> None | Inr s \<Rightarrow> Some (c, s)) chunks"
    by (rule score_loop_map_filter)
next
  assume a: "3 \<le> length query
        \<and> get_embeddings alloc cfg [query] None = Inr (qe # others)
        \<and> pdf_chunks db \<noteq> []"
  have s: "sort_reverse ar (\<lambda>r. Scalar (Num (score r))) rs = Inr (stable_descending score rs)"
    for rs :: "'a search_result list"
    using sort_reverse_numbers [of "\<lambda>r. Scalar (Num (score r))" rs ar]
    by (simp add: is_number_def list_all_iff stable_descending_Some)
  from a have "query \<noteq> []" by auto
  with a show "search_pdfs alloc ar cfg db query
            = (let results =
                     stable_descending score
                       (search_loop ar db (map (ar_of_real ar) qe) (pdf_chunks db) []);
                   top_results = take 10 results
               in if list_all (\<lambda>r. ar_finite ar (score r)) top_results
                  then SearchResults top_results (length results)
                  else ServerError ValueError)"
    by (simp add: search_pdfs_def s Let_def)
next
  show "search_loop ar db q chunks []
       = List.map_filter
           (\<lambda>c. case try_score ar q c of
                  Inr (Scalar (Num v)) \<Rightarrow>
                    if ar_threshold ar < v then Some (make_result db c v) else None
                | other \<Rightarrow> None)
           chunks"
    by (rule search_loop_map_filter)
next
  show "mset (stable_descending key xs) = mset xs" by (rule stable_descending_mset)
  show "sorted_wrt (\<lambda>a b. key b \<le> key a) (stable_descending key xs)"
    by (rule stable_descending_sorted)
  show "filter (\<lambda>x. key x = k) (stable_descending key xs) = filter (\<lambda>x. key x = k) xs"
    by (rule stable_descending_stable)
qed

text \<open>
  The theorem at a question and a query of dimension 1 and four chunks \<open>w\<close>, \<open>x\<close>, \<open>z\<close>, \<open>y\<close>
  that score \<open>-1\<close>, \<open>1\<close>, \<open>0\<close> and \<open>1\<close>: the ranking is \<open>x\<close>, \<open>y\<close>, \<open>z\<close>, \<open>w\<close>, with the two chunks
  of score \<open>1\<close> in the order of the collection; \<open>answer_question\<close> answers from \<open>x\<close>, and
  \<open>/search\<close> returns \<open>x\<close> before \<open>y\<close>.
\<close>

theorem ranking_stable_witness:
  "get_embeddings unlimited cfg_dim1 [''what is x''] None = Inr ([1] # [])
   \<and> pdf_chunks db_tie \<noteq> []
   \<and> score_loop exact_arith [Num 1] (pdf_chunks db_tie) []
       = [(chunk_row ''w'' 0 (JsonArray [Num (- 1)]), Scalar (Num (- 1))),
          (chunk_row ''x'' 1 (JsonArray [Num 1]), Scalar (Num 1)),
          (chunk_row ''z'' 2 (JsonArray [Num 0]), Scalar (Num 0)),
          (chunk_row ''y'' 3 (JsonArray [Num 2]), Scalar (Num 1))]
   \<and> top_chunks_of exact_arith [Num 1] (pdf_chunks db_tie)
       = Inr [(chunk_row ''x'' 1 (JsonArray [Num 1]), Scalar (Num 1)),
              (chunk_row ''y'' 3 (JsonArray [Num 2]), Scalar (Num 1)),
              (chunk_row ''z'' 2 (JsonArray [Num 0]), Scalar (Num 0))]
   \<and> answer_question unlimited exact_arith cfg_dim1 db_tie ''what is x''
       = Inr (''Based on the PDF content, I found this information:'' @ [NL, NL] @ ''x''
              @ [NL, NL] @ ''Source: PDF #1'' @ [NL] @ ''Confidence: 100%'')
   \<and> (3::nat) \<le> length ''abc''
   \<and> get_embeddings unlimited cfg_dim1 [''abc''] None = Inr ([1] # [])
   \<and> search_pdfs unlimited exact_arith cfg_dim1 db_tie ''abc''
       = SearchResults
           [\<lparr>result_pdf_id = 1, pdf_name = ''a.pdf'', result_chunk_index = 1,
             result_chunk_text = ''x'', score = 1\<rparr>,
            \<lparr>result_pdf_id = 1, pdf_name = ''a.pdf'', result_chunk_index = 3,
             result_chunk_text = ''y'', score = 1\<rparr>]
           2"
proof -
  note t = ranking_stable [where alloc = unlimited and ar = exact_arith and cfg = cfg_dim1
      and db = db_tie and question = "''what is x''" and query = "''abc''" and qe = "[1]"
      and others = "[]" and q = "[Num 1]" and chunks = "pdf_chunks db_tie"]
  have c: "pdf_chunks db_tie \<noteq> []" by (simp add: db_tie_def db_with_def)
  have n: "list_all (\<lambda>x. is_number (snd x)) (score_loop exact_arith [Num 1] (pdf_chunks db_tie) [])"
    unfolding score_tie by (simp add: is_number_def)
  have q: "map (ar_of_real exact_arith) [1] = [Num 1]" by (simp add: exact_fields)
  have a: "answer_question unlimited exact_arith cfg_dim1 db_tie ''what is x''
       = Inr (''Based on the PDF content, I found this information:'' @ [NL, NL] @ ''x''
              @ [NL, NL] @ ''Source: PDF #1'' @ [NL] @ ''Confidence: 100%'')"
    using t [THEN conjunct1] embed_what c n
    unfolding q score_tie rank_tie
    by (simp add: TOP_K_CHUNKS_def answer_tail)
  have b: "top_chunks_of exact_arith [Num 1] (pdf_chunks db_tie)
       = Inr [(chunk_row ''x'' 1 (JsonArray [Num 1]), Scalar (Num 1)),
              (chunk_row ''y'' 3 (JsonArray [Num 2]), Scalar (Num 1)),
              (chunk_row ''z'' 2 (JsonArray [Num 0]), Scalar (Num 0))]"
    using t [THEN conjunct2, THEN conjunct1] n
    unfolding score_tie rank_tie
    by (simp add: TOP_K_CHUNKS_def)
  have s: "search_pdfs unlimited exact_arith cfg_dim1 db_tie ''abc''
       = SearchResults
           [\<lparr>result_pdf_id = 1, pdf_name = ''a.pdf'', result_chunk_index = 1,
             result_chunk_text = ''x'', score = 1\<rparr>,
            \<lparr>result_pdf_id = 1, pdf_name = ''a.pdf'', result_chunk_index = 3,
             result_chunk_text = ''y'', score = 1\<rparr>]
           2"
    using t [THEN conjunct2, THEN conjunct2, THEN conjunct2, THEN conjunct1] embed_abc c
    unfolding q search_tie
    by (simp add: exact_fields)
  from a b s c embed_what embed_abc score_tie show ?thesis by simp
qed

text \<open>
  C8 as stated fails when a score is NaN. The stored vectors \<open>[0.0]\<close>, \<open>[NaN]\<close> and \<open>[1.0]\<close>
  score \<open>0\<close>, NaN and \<open>1\<close> against the question; every comparison with NaN is false, the sort
  leaves the three chunks as they are, and the chunk of score \<open>0\<close> is ranked before the chunk
  of score \<open>1\<close>: \<open>answer_question\<close> answers from it, with confidence \<open>0%\<close>.
\<close>

theorem ranking_stable_counterexample:
  "score_loop exact_arith [Num 1] (pdf_chunks db_nan) []
     = [(chunk_row ''low'' 0 (JsonArray [Num 0]), Scalar (Num 0)),
        (chunk_row ''nan'' 1 (JsonArray [NaN]), Scalar NaN),
        (chunk_row ''high'' 2 (JsonArray [Num 1]), Scalar (Num 1))]
   \<and> top_chunks_of exact_arith [Num 1] (pdf_chunks db_nan)
     = Inr [(chunk_row ''low'' 0 (JsonArray [Num 0]), Scalar (Num 0)),
            (chunk_row ''nan'' 1 (JsonArray [NaN]), Scalar NaN),
            (chunk_row ''high'' 2 (JsonArray [Num 1]), Scalar (Num 1))]
   \<and> answer_question unlimited exact_arith cfg_dim1 db_nan ''what is x''
     = Inr (''I couldn'' @ [CHR 0x27]
            @ ''t find a definitive answer, but this might be relevant:'' @ [NL, NL] @ ''low''
            @ [NL, NL] @ ''Source: PDF #1'' @ [NL] @ ''Confidence: 0%'')"
  using score_nan rank_nan answer_nan by simp

subsection \<open>Stored embeddings that do not parse\<close>

text \<open>
  C10, as amended. A chunk whose stored embedding fails to parse is left out of the scores.
  As long as some stored embedding parses, \<open>answer_question\<close> has the same outcome, answer or
  exception, as on the collection without the chunks whose embedding fails to parse. When
  chunks exist and every stored embedding fails to parse, the outcome is the fixed text
  \<open>"I couldn't find any relevant information in the uploaded PDFs."\<close>, unless the embedding
  of the question, which is computed first and outside any \<open>try\<close>, has raised: \<open>ValueError\<close>
  for a negative \<open>EMBEDDING_DIM\<close>, the exception of the allocation, or \<open>ZeroDivisionError\<close>
  for \<open>EMBEDDING_DIM = 0\<close> and a question that is not empty.
\<close>

theorem answer_question_malformed:
  "(filter (\<lambda>c. \<not> isl (json_loads (embedding c))) (pdf_chunks db) \<noteq> []
     \<longrightarrow> answer_question alloc ar cfg db question
           = answer_question alloc ar cfg
               (db\<lparr>pdf_chunks := filter (\<lambda>c. \<not> isl (json_loads (embedding c))) (pdf_chunks db)\<rparr>)
               question)
   \<and> score_loop ar q (pdf_chunks db) []
       = score_loop ar q (filter (\<lambda>c. \<not> isl (json_loads (embedding c))) (pdf_chunks db)) []
   \<and> (pdf_chunks db \<noteq> [] \<and> list_all (\<lambda>c. isl (json_loads (embedding c))) (pdf_chunks db)
       \<longrightarrow> answer_question alloc ar cfg db question
             = (if EMBEDDING_DIM cfg < 0 then Inl ValueError
                else (case alloc Array (nat (EMBEDDING_DIM cfg)) of
                        Some e \<Rightarrow> Inl e
                      | None \<Rightarrow> if EMBEDDING_DIM cfg = 0 \<and> question \<noteq> []
                                then Inl ZeroDivisionError
                                else Inr not_found_message)))"
proof (intro conjI impI)
  assume ne: "filter (\<lambda>c. \<not> isl (json_loads (embedding c))) (pdf_chunks db) \<noteq> []"
  then have "pdf_chunks db \<noteq> []" by auto
  with ne show "answer_question alloc ar cfg db question
           = answer_question alloc ar cfg
               (db\<lparr>pdf_chunks := filter (\<lambda>c. \<not> isl (json_loads (embedding c))) (pdf_chunks db)\<rparr>)
               question"
    by (intro answer_question_scores) (simp_all add: score_loop_malformed [symmetric])
next
  show "score_loop ar q (pdf_chunks db) []
       = score_loop ar q (filter (\<lambda>c. \<not> isl (json_loads (embedding c))) (pdf_chunks db)) []"
    by (rule score_loop_malformed)
next
  assume "pdf_chunks db \<noteq> [] \<and> list_all (\<lambda>c. isl (json_loads (embedding c))) (pdf_chunks db)"
  then show "answer_question alloc ar cfg db question
             = (if EMBEDDING_DIM cfg < 0 then Inl ValueError
                else (case alloc Array (nat (EMBEDDING_DIM cfg)) of
                        Some e \<Rightarrow> Inl e
                      | None \<Rightarrow> if EMBEDDING_DIM cfg = 0 \<and> question \<noteq> []
                                then Inl ZeroDivisionError
                                else Inr not_found_message))"
    by (simp add: answer_question_def question_embedding_cases Let_def top_chunks_of_def
        score_loop_all_malformed sort_reverse_def split: option.splits)
qed

text \<open>
  The theorem at dimension 1: on a database whose second chunk \<open>x\<close> parses and whose first
  and third do not, the answer is the one from \<open>x\<close> alone; on a database of two chunks that
  do not parse, it is the fixed text.
\<close>

theorem answer_question_malformed_witness:
  "filter (\<lambda>c. \<not> isl (json_loads (embedding c))) (pdf_chunks db_mixed)
     = [chunk_row ''x'' 1 (JsonArray [Num 1])]
   \<and> answer_question unlimited exact_arith cfg_dim1 db_mixed ''what is x''
       = answer_question unlimited exact_arith cfg_dim1
           (db_with [chunk_row ''x'' 1 (JsonArray [Num 1])]) ''what is x''
   \<and> answer_question unlimited exact_arith cfg_dim1 db_mixed ''what is x''
       = Inr (''Based on the PDF content, I found this information:'' @ [NL, NL] @ ''x''
              @ [NL, NL] @ ''Source: PDF #1'' @ [NL] @ ''Confidence: 100%'')
   \<and> pdf_chunks db_malformed \<noteq> []
   \<and> list_all (\<lambda>c. isl (json_loads (embedding c))) (pdf_chunks db_malformed)
   \<and> answer_question unlimited exact_arith cfg_dim1 db_malformed ''what is x''
       = Inr not_found_message"
proof -
  note m = answer_question_malformed [where db = db_mixed and alloc = unlimited
      and ar = exact_arith and cfg = cfg_dim1 and question = "''what is x''"]
  note n = answer_question_malformed [where db = db_malformed and alloc = unlimited
      and ar = exact_arith and cfg = cfg_dim1 and question = "''what is x''"]
  have f: "filter (\<lambda>c. \<not> isl (json_loads (embedding c))) (pdf_chunks db_mixed)
             = [chunk_row ''x'' 1 (JsonArray [Num 1])]"
    by (simp add: db_mixed_def db_with_def chunk_row_def)
  have d: "db_mixed\<lparr>pdf_chunks := [chunk_row ''x'' 1 (JsonArray [Num 1])]\<rparr>
             = db_with [chunk_row ''x'' 1 (JsonArray [Num 1])]"
    by (simp add: db_mixed_def db_with_def)
  have a: "answer_question unlimited exact_arith cfg_dim1 db_mixed ''what is x''
       = answer_question unlimited exact_arith cfg_dim1
           (db_with [chunk_row ''x'' 1 (JsonArray [Num 1])]) ''what is x''"
    using m [THEN conjunct1] unfolding f d by simp
  have c: "pdf_chunks db_malformed \<noteq> []
           \<and> list_all (\<lambda>c. isl (json_loads (embedding c))) (pdf_chunks db_malformed)"
    by (simp add: db_malformed_def db_with_def chunk_row_def)
  have b: "answer_question unlimited exact_arith cfg_dim1 db_malformed ''what is x''
       = Inr not_found_message"
    using n [THEN conjunct2, THEN conjunct2] c
    by (simp add: cfg_dim1_def unlimited_def)
  from f a b c answer_mixed show ?thesis by simp
qed

text \<open>
  C10 as stated fails when the embedding of the question raises. With \<open>EMBEDDING_DIM = 0\<close>
  the index \<open>i % 0\<close> raises \<open>ZeroDivisionError\<close> before any chunk is read, on the database
  whose chunks all fail to parse as on any other.
\<close>

theorem answer_question_malformed_counterexample:
  "pdf_chunks db_malformed
     = [chunk_row ''x'' 0 (Malformed ''[0.1,''), chunk_row ''y'' 1 (Malformed ''oops'')]
   \<and> json_loads (embedding (chunk_row ''x'' 0 (Malformed ''[0.1,''))) = Inl JSONDecodeError
   \<and> json_loads (embedding (chunk_row ''y'' 1 (Malformed ''oops''))) = Inl JSONDecodeError
   \<and> answer_question unlimited exact_arith cfg_dim0 db_malformed ''what is x''
       = Inl ZeroDivisionError"
  by (simp add: db_malformed_def db_with_def chunk_row_def answer_question_def cfg_dim0_def
      get_embeddings_def get_simple_embeddings_def embed_text_def np_zeros_def unlimited_def
      Let_def)

subsection \<open>Keyword-overlap retrieval\<close>




subsection \<open>The unconfigured answer generator\<close>

text \<open>
  C9. The claim is that with the generator unconfigured every call returns the response
  "AI services not available". A follow-up call is answered before the configuration is
  looked at: with no setting in the environment, \<open>generate_followup_answer\<close> catches the
  configuration error and the function returns a success response whose answer is the
  apology. And \<open>_llm_configured\<close> accepts a blank value that \<open>_get_azure_config\<close> rejects:
  with a blank \<open>LLM_API_KEY\<close> a question about a PDF that does not exist gets the "not found"
  response.
\<close>

theorem unconfigured_followup:
  "\<not> llm_available env_unset
   \<and> get_azure_config env_unset = Inl AzureOpenAIConfigError
   \<and> answer_question_with_ai env_unset remote decorate db question pdf_id True (Some ''previous'')
       = FollowupAnswer followup_apology
   \<and> get_azure_config env_blank_key = Inl AzureOpenAIConfigError
   \<and> answer_question_with_ai env_blank_key remote decorate empty_db question (Some 7) False None
       = PdfNotFound 7"
  by (simp add: answer_question_with_ai_def llm_available_def llm_configured_def py_or_def
      py_truthy_def env_unset_def env_blank_key_def get_azure_config_def strip_def isspace_def
      generate_followup_answer_def llm_generate_def empty_db_def Let_def)

end
